theory Spec2Isabelle
  imports Complex_Main "HOL-Library.AList"
begin

section \<open>Python values\<close>

text \<open>
  The proxy handles decoded JSON throughout: client payloads, agent frames and the
  entries of the delivery queues are whatever \<^verbatim>\<open>json.loads\<close> returned. A Python
  \<^verbatim>\<open>dict\<close> keeps its keys in insertion order, so it is an association list with
  distinct keys: assignment replaces the value in place or appends a new key,
  \<^verbatim>\<open>del\<close> removes the key. A \<^verbatim>\<open>str\<close> is a list of characters, one \<^typ>\<open>char\<close> per
  code point; the model covers the ASCII range. JSON numbers are kept as integers,
  no modelled function computes with them.
\<close>

datatype json =
    JNull
  | JBool bool
  | JNum int
  | JStr string
  | JArr "json list"
  | JObj "(string \<times> json) list"

datatype py_error =
    TypeError
  | ValueError
  | KeyError
  | AttributeError
  | HTTPException nat string

type_synonym 'a dict = "(string \<times> 'a) list"

definition dict_get :: "'a dict \<Rightarrow> string \<Rightarrow> 'a option" where
  "dict_get d k = map_of d k"

definition dict_contains :: "'a dict \<Rightarrow> string \<Rightarrow> bool" where
  "dict_contains d k = (dict_get d k \<noteq> None)"

definition dict_set :: "'a dict \<Rightarrow> string \<Rightarrow> 'a \<Rightarrow> 'a dict" where
  "dict_set d k v = AList.update k v d"

definition dict_del :: "'a dict \<Rightarrow> string \<Rightarrow> 'a dict" where
  "dict_del d k = AList.delete k d"

definition dict_keys :: "'a dict \<Rightarrow> string list" where
  "dict_keys d = map fst d"

text \<open>Truth value of a decoded JSON value in a Python condition.\<close>

fun truthy :: "json \<Rightarrow> bool" where
  "truthy JNull = False"
| "truthy (JBool b) = b"
| "truthy (JNum n) = (n \<noteq> 0)"
| "truthy (JStr s) = (s \<noteq> [])"
| "truthy (JArr xs) = (xs \<noteq> [])"
| "truthy (JObj kvs) = (kvs \<noteq> [])"

text \<open>
  A dictionary with \<^verbatim>\<open>str\<close> keys indexed by an arbitrary decoded value: lists and
  objects are unhashable (\<^verbatim>\<open>TypeError\<close>), a string is looked up, any other scalar is
  never equal to a string key.
\<close>

fun lookup_key :: "'a dict \<Rightarrow> json \<Rightarrow> py_error + 'a option" where
  "lookup_key d (JStr k) = Inr (dict_get d k)"
| "lookup_key d (JArr xs) = Inl TypeError"
| "lookup_key d (JObj kvs) = Inl TypeError"
| "lookup_key d v = Inr None"

section \<open>Request state management\<close>

datatype RequestStatus =
    PENDING
  | SENT_TO_BROWSER
  | PROCESSING
  | COMPLETED
  | TIMEOUT
  | ERROR

text \<open>
  \<^verbatim>\<open>response_queue\<close> is a reference to an \<^verbatim>\<open>asyncio.Queue\<close> that the response
  channel table shares; queues therefore live in a store indexed by address.
\<close>

record PersistentRequest =
  request_id :: string
  openai_request :: "json dict"
  response_queue :: nat
  status :: RequestStatus
  created_at :: real
  sent_to_browser_at :: "real option"
  last_activity_at :: "real option"
  model_name :: string
  is_streaming :: json
  accumulated_response :: string

text \<open>Tasks handed to \<^verbatim>\<open>asyncio.create_task\<close> and not yet run to their end.\<close>

datatype task =
    Watcher int "string list"
  | SendToBrowser string "json dict"

text \<open>
  The module's global state: the agent link, the response channel table, the
  request manager's dictionary, the queue store, the shutdown flag, the two
  \<^verbatim>\<open>Config\<close> attributes that \<^verbatim>\<open>/api/config\<close> can overwrite, the model registry, the
  spawned tasks, the frames written to the agent link and the heartbeat's record
  of the last pong.

  A watcher task is recorded with the delay it sleeps for and the ids of the
  dictionary it was given. The
  request objects in that dictionary are the ones the manager holds under the same
  ids (an id is a fresh \<^verbatim>\<open>uuid4\<close> and is registered once), so the watcher reads a
  request's status through the manager's entry.
\<close>

record server =
  browser_ws :: "nat option"
  response_channels :: "nat dict"
  active_requests :: "PersistentRequest dict"
  queues :: "nat \<Rightarrow> json list"
  next_queue :: nat
  SHUTTING_DOWN :: bool
  MAX_CONCURRENT_REQUESTS :: int
  REQUEST_TIMEOUT_SECONDS :: int
  MODEL_REGISTRY :: "json dict dict"
  background_tasks :: "task list"
  ws_sent :: "json list"
  last_pong :: real
  missed_pongs :: nat

definition initial_server :: server where
  "initial_server =
     \<lparr>browser_ws = None, response_channels = [], active_requests = [],
      queues = (\<lambda>_. []), next_queue = 0, SHUTTING_DOWN = False,
      MAX_CONCURRENT_REQUESTS = 20, REQUEST_TIMEOUT_SECONDS = 180,
      MODEL_REGISTRY = [], background_tasks = [], ws_sent = [],
      last_pong = 0, missed_pongs = 0\<rparr>"

text \<open>
  \<^verbatim>\<open>await queue.put(x)\<close> appends to the queue. A put on a queue that already holds
  \<^verbatim>\<open>BACKPRESSURE_QUEUE_SIZE\<close> entries suspends until the consumer has taken one; the
  model records the entry at the point where the put completes.
\<close>

definition queue_put :: "server \<Rightarrow> nat \<Rightarrow> json \<Rightarrow> server" where
  "queue_put s q x = s\<lparr>queues := (queues s)(q := queues s q @ [x])\<rparr>"

definition add_request ::
  "server \<Rightarrow> real \<Rightarrow> string \<Rightarrow> json dict \<Rightarrow> nat \<Rightarrow> string \<Rightarrow> json \<Rightarrow>
     (py_error + PersistentRequest) \<times> server" where
  "add_request s now rid openai_req q mname streaming =
     (if MAX_CONCURRENT_REQUESTS s \<le> int (length (active_requests s))
      then (Inl (HTTPException 503 ''Too many concurrent requests''), s)
      else
        let persistent_req =
              \<lparr>request_id = rid, openai_request = openai_req, response_queue = q,
               status = PENDING, created_at = now, sent_to_browser_at = None,
               last_activity_at = None, model_name = mname, is_streaming = streaming,
               accumulated_response = []\<rparr>
        in (Inr persistent_req,
            s\<lparr>active_requests := dict_set (active_requests s) rid persistent_req\<rparr>))"

definition get_request :: "server \<Rightarrow> string \<Rightarrow> PersistentRequest option" where
  "get_request s rid = dict_get (active_requests s) rid"

definition update_status :: "server \<Rightarrow> real \<Rightarrow> string \<Rightarrow> RequestStatus \<Rightarrow> server" where
  "update_status s now rid st =
     (case dict_get (active_requests s) rid of
        None \<Rightarrow> s
      | Some r \<Rightarrow>
          s\<lparr>active_requests :=
              dict_set (active_requests s) rid (r\<lparr>status := st, last_activity_at := Some now\<rparr>)\<rparr>)"


definition complete_request :: "server \<Rightarrow> string \<Rightarrow> server" where
  "complete_request s rid =
     (if dict_contains (active_requests s) rid
      then s\<lparr>active_requests := dict_del (active_requests s) rid\<rparr>
      else s)"

text \<open>A sequence of admissions and completions, run from a given state.\<close>

datatype registry_op =
    Admit real string "json dict" nat string json
  | Complete string

fun run_op :: "server \<Rightarrow> registry_op \<Rightarrow> server" where
  "run_op s (Admit now rid openai_req q mname streaming) =
     snd (add_request s now rid openai_req q mname streaming)"
| "run_op s (Complete rid) = complete_request s rid"

definition run_ops :: "server \<Rightarrow> registry_op list \<Rightarrow> server" where
  "run_ops s ops = foldl run_op s ops"

section \<open>The concurrency cap\<close>

lemma distinct_dict_set:
  "distinct (map fst d) \<Longrightarrow> distinct (map fst (dict_set d k v))"
  by (simp add: dict_set_def distinct_update)

lemma distinct_dict_del:
  "distinct (map fst d) \<Longrightarrow> distinct (map fst (dict_del d k))"
  by (simp add: dict_del_def distinct_delete)

lemma length_dict_set_le: "length (dict_set d k v) \<le> Suc (length d)"
  by (induction d) (auto simp: dict_set_def)

lemma length_dict_del_le: "length (dict_del d k) \<le> length d"
  by (simp add: dict_del_def length_delete_le)

definition registry_ok :: "server \<Rightarrow> bool" where
  "registry_ok s \<longleftrightarrow>
     distinct (map fst (active_requests s)) \<and>
     int (length (active_requests s)) \<le> MAX_CONCURRENT_REQUESTS s"

lemma add_request_cap [simp]:
  "MAX_CONCURRENT_REQUESTS (snd (add_request s now rid oreq q m st)) = MAX_CONCURRENT_REQUESTS s"
  by (simp add: add_request_def Let_def)

lemma complete_request_cap [simp]:
  "MAX_CONCURRENT_REQUESTS (complete_request s rid) = MAX_CONCURRENT_REQUESTS s"
  by (simp add: complete_request_def)

lemma registry_ok_add_request:
  assumes "registry_ok s"
  shows "registry_ok (snd (add_request s now rid oreq q m st))"
proof (cases "MAX_CONCURRENT_REQUESTS s \<le> int (length (active_requests s))")
  case True
  with assms show ?thesis by (simp add: add_request_def)
next
  case False
  then have lt: "int (length (active_requests s)) < MAX_CONCURRENT_REQUESTS s"
    by simp
  have "int (length (dict_set (active_requests s) rid r)) \<le> MAX_CONCURRENT_REQUESTS s" for r
    using length_dict_set_le [of "active_requests s" rid r] lt by linarith
  with False assms show ?thesis
    by (simp add: add_request_def Let_def registry_ok_def distinct_dict_set)
qed

lemma registry_ok_complete_request:
  assumes "registry_ok s"
  shows "registry_ok (complete_request s rid)"
proof -
  have "int (length (dict_del (active_requests s) rid)) \<le> int (length (active_requests s))"
    using length_dict_del_le [of "active_requests s" rid] by linarith
  with assms show ?thesis
    by (simp add: complete_request_def registry_ok_def distinct_dict_del)
qed

lemma registry_ok_run_op: "registry_ok s \<Longrightarrow> registry_ok (run_op s op)"
  by (cases op) (simp_all add: registry_ok_add_request registry_ok_complete_request)

lemma run_op_cap [simp]: "MAX_CONCURRENT_REQUESTS (run_op s op) = MAX_CONCURRENT_REQUESTS s"
  by (cases op) simp_all

lemma registry_ok_run_ops: "registry_ok s \<Longrightarrow> registry_ok (run_ops s ops)"
  unfolding run_ops_def by (induction ops arbitrary: s) (simp_all add: registry_ok_run_op)

lemma run_ops_cap [simp]: "MAX_CONCURRENT_REQUESTS (run_ops s ops) = MAX_CONCURRENT_REQUESTS s"
  unfolding run_ops_def by (induction ops arbitrary: s) simp_all

lemma run_ops_snoc: "run_ops s (ops @ [op]) = run_op (run_ops s ops) op"
  by (simp add: run_ops_def)

lemma registry_ok_initial: "registry_ok initial_server"
  by (simp add: registry_ok_def initial_server_def)

text \<open>
  C1. Whatever sequence of \<^verbatim>\<open>add_request\<close> and \<^verbatim>\<open>complete_request\<close> calls has run
  since start-up, the manager's dictionary holds at most 20 requests (its length is
  the number of distinct live ids). When it holds 20, a further \<^verbatim>\<open>add_request\<close>
  raises the 503 \<^verbatim>\<open>Too many concurrent requests\<close> and the state after it is the state
  before it.
\<close>

theorem live_requests_within_cap:
  fixes ops :: "registry_op list"
  defines "s \<equiv> run_ops initial_server ops"
  shows "distinct (dict_keys (active_requests s)) \<and>
         length (active_requests s) \<le> 20 \<and>
         (length (active_requests s) = 20 \<longrightarrow>
            add_request s now rid oreq q m st =
              (Inl (HTTPException 503 ''Too many concurrent requests''), s) \<and>
            active_requests (run_ops initial_server (ops @ [Admit now rid oreq q m st])) =
              active_requests s)"
proof -
  have ok: "registry_ok s"
    unfolding s_def by (rule registry_ok_run_ops [OF registry_ok_initial])
  have cap: "MAX_CONCURRENT_REQUESTS s = 20"
    unfolding s_def by (simp add: initial_server_def)
  from ok cap have len: "length (active_requests s) \<le> 20"
    by (simp add: registry_ok_def)
  have full: "add_request s now rid oreq q m st =
      (Inl (HTTPException 503 ''Too many concurrent requests''), s)"
    if "length (active_requests s) = 20"
    using that cap by (simp add: add_request_def)
  from ok len full show ?thesis
    by (simp add: registry_ok_def dict_keys_def run_ops_snoc s_def [symmetric])
qed

text \<open>Twenty admissions under distinct ids fill the registry; the next one is refused.\<close>

theorem live_requests_within_cap_witness:
  "length (active_requests (run_ops initial_server
      (map (\<lambda>n. Admit 0 (replicate n CHR ''r'') [] n ''M'' (JBool True)) [1..<21]))) = 20 \<and>
   fst (add_request (run_ops initial_server
      (map (\<lambda>n. Admit 0 (replicate n CHR ''r'') [] n ''M'' (JBool True)) [1..<21]))
      0 ''x'' [] 99 ''M'' (JBool True)) =
     Inl (HTTPException 503 ''Too many concurrent requests'')"
proof -
  let ?ops = "map (\<lambda>n. Admit 0 (replicate n CHR ''r'') [] n ''M'' (JBool True)) [1..<21]"
  have len: "length (active_requests (run_ops initial_server ?ops)) = 20"
    by (simp add: run_ops_def upt_rec add_request_def initial_server_def dict_set_def Let_def)
  from live_requests_within_cap [of ?ops 0 "''x''" "[]" 99 "''M''" "JBool True"] len
  show ?thesis by simp
qed

section \<open>Disconnect, timeout watcher and agent frames\<close>

text \<open>\<^verbatim>\<open>str(n)\<close> for an integer, as the f-string of the timeout message renders it.\<close>

fun str_nat :: "nat \<Rightarrow> string" where
  "str_nat n =
     (if n < 10 then [''0123456789'' ! n]
      else str_nat (n div 10) @ [''0123456789'' ! (n mod 10)])"

declare str_nat.simps [simp del]

definition str_int :: "int \<Rightarrow> string" where
  "str_int i = (if i < 0 then CHR ''-'' # str_nat (nat (- i)) else str_nat (nat i))"

definition timeout_error :: "server \<Rightarrow> json" where
  "timeout_error s =
     JObj [(''error'', JStr (''Request timed out after '' @ str_int (REQUEST_TIMEOUT_SECONDS s) @
       '' seconds. Browser may have disconnected during Cloudflare challenge.''))]"

definition timeout_request :: "server \<Rightarrow> string \<Rightarrow> server" where
  "timeout_request s rid =
     (case dict_get (active_requests s) rid of
        None \<Rightarrow> s
      | Some req \<Rightarrow>
          let s1 = queue_put s (response_queue req) (timeout_error s)
          in s1\<lparr>active_requests := dict_del (active_requests s1) rid\<rparr>)"

definition is_pending :: "PersistentRequest \<Rightarrow> bool" where
  "is_pending req \<longleftrightarrow> status req = SENT_TO_BROWSER \<or> status req = PROCESSING"

definition get_pending_requests :: "server \<Rightarrow> PersistentRequest dict" where
  "get_pending_requests s = filter (\<lambda>(req_id, req). is_pending req) (active_requests s)"

text \<open>
  The watcher after its sleep of \<^verbatim>\<open>REQUEST_TIMEOUT_SECONDS\<close>: one pass over the
  requests it was given.
\<close>

definition watcher_check :: "server \<Rightarrow> string \<Rightarrow> server" where
  "watcher_check s rid =
     (case get_request s rid of
        None \<Rightarrow> s
      | Some req \<Rightarrow> if is_pending req then timeout_request s rid else s)"



text \<open>
  Frames are written to the link with \<^verbatim>\<open>send_text\<close>; the model keeps the decoded
  frame and leaves out its human-readable \<^verbatim>\<open>message\<close> text. A write is taken to
  succeed.
\<close>

definition send_text :: "server \<Rightarrow> json \<Rightarrow> server" where
  "send_text s frame = s\<lparr>ws_sent := ws_sent s @ [frame]\<rparr>"

text \<open>\<^verbatim>\<open>websocket_endpoint\<close> up to its receive loop.\<close>

definition websocket_accept :: "server \<Rightarrow> real \<Rightarrow> nat \<Rightarrow> server" where
  "websocket_accept s now websocket =
     (let s1 = s\<lparr>browser_ws := Some websocket, last_pong := now, missed_pongs := 0\<rparr>;
          pending_requests = get_pending_requests s1
      in if pending_requests \<noteq> []
         then send_text s1 (JObj [(''type'', JStr ''reconnection_ack''),
                (''pending_request_ids'', JArr (map JStr (dict_keys pending_requests)))])
         else s1)"


fun py_iter :: "json \<Rightarrow> py_error + json list" where
  "py_iter (JStr s) = Inr (map (\<lambda>c. JStr [c]) s)"
| "py_iter (JArr xs) = Inr xs"
| "py_iter (JObj kvs) = Inr (map (\<lambda>(k, v). JStr k) kvs)"
| "py_iter v = Inl TypeError"






definition json_get :: "json dict \<Rightarrow> string \<Rightarrow> json" where
  "json_get d k = (case dict_get d k of None \<Rightarrow> JNull | Some v \<Rightarrow> v)"


text \<open>The \<^verbatim>\<open>finally\<close> block of \<^verbatim>\<open>websocket_endpoint\<close>, run when the link closes.\<close>

definition fail_unregistered :: "server \<Rightarrow> string \<times> nat \<Rightarrow> server" where
  "fail_unregistered s = (\<lambda>(rid, queue).
     case get_request s rid of
       None \<Rightarrow> queue_put s queue (JObj [(''error'', JStr ''Browser disconnected'')])
     | Some persistent_req \<Rightarrow> s)"


text \<open>
  \<^verbatim>\<open>stream_generator\<close> on the shared tables: the queue it finds at its start, and
  its \<^verbatim>\<open>finally\<close> block, which releases the channel and the registry entry.
\<close>

definition generator_queue :: "server \<Rightarrow> string \<Rightarrow> nat option \<times> server" where
  "generator_queue s rid =
     (case dict_get (response_channels s) rid of
        Some queue \<Rightarrow> (Some queue, s)
      | None \<Rightarrow>
          (case get_request s rid of
             Some persistent_req \<Rightarrow>
               (Some (response_queue persistent_req),
                s\<lparr>response_channels :=
                    dict_set (response_channels s) rid (response_queue persistent_req)\<rparr>)
           | None \<Rightarrow> (None, s)))"

definition generator_finally :: "server \<Rightarrow> string \<Rightarrow> server" where
  "generator_finally s rid =
     complete_request
       (if dict_contains (response_channels s) rid
        then s\<lparr>response_channels := dict_del (response_channels s) rid\<rparr>
        else s)
       rid"

subsection \<open>Dictionary facts\<close>

lemma dict_get_set [simp]:
  "dict_get (dict_set d k v) k' = (if k' = k then Some v else dict_get d k')"
  by (simp add: dict_get_def dict_set_def update_conv')

lemma dict_get_del [simp]:
  "dict_get (dict_del d k) k' = (if k' = k then None else dict_get d k')"
  by (simp add: dict_get_def dict_del_def delete_conv')






text \<open>
  Each request has its own delivery queue: \<^verbatim>\<open>chat_completions\<close> creates one per
  request id, and every later binding of a channel copies the request's own
  reference. \<open>queue_private s rid q\<close> says so for one queue: in both tables, \<open>q\<close> is
  found under \<open>rid\<close> only.
\<close>

definition queue_private :: "server \<Rightarrow> string \<Rightarrow> nat \<Rightarrow> bool" where
  "queue_private s rid q \<longleftrightarrow>
     (\<forall>(k, r) \<in> set (active_requests s). response_queue r = q \<longrightarrow> k = rid) \<and>
     (\<forall>(k, qa) \<in> set (response_channels s). qa = q \<longrightarrow> k = rid)"



lemma timeout_request_other [simp]:
  "response_channels (timeout_request s k) = response_channels s"
  "REQUEST_TIMEOUT_SECONDS (timeout_request s k) = REQUEST_TIMEOUT_SECONDS s"
  "background_tasks (timeout_request s k) = background_tasks s"
  by (simp_all add: timeout_request_def queue_put_def Let_def split: option.split)

lemma watcher_check_other [simp]:
  "response_channels (watcher_check s k) = response_channels s"
  "REQUEST_TIMEOUT_SECONDS (watcher_check s k) = REQUEST_TIMEOUT_SECONDS s"
  by (simp_all add: watcher_check_def split: option.split)










subsection \<open>A link that never returns\<close>


lemma fail_unregistered_fields [simp]:
  "active_requests (fail_unregistered s c) = active_requests s"
  "REQUEST_TIMEOUT_SECONDS (fail_unregistered s c) = REQUEST_TIMEOUT_SECONDS s"
  "background_tasks (fail_unregistered s c) = background_tasks s"
  by (cases c; simp add: fail_unregistered_def queue_put_def split: option.split)+

lemma foldl_fail_unregistered_fields [simp]:
  "active_requests (foldl fail_unregistered s chs) = active_requests s"
  "REQUEST_TIMEOUT_SECONDS (foldl fail_unregistered s chs) = REQUEST_TIMEOUT_SECONDS s"
  "background_tasks (foldl fail_unregistered s chs) = background_tasks s"
  by (induction chs arbitrary: s; simp)+








section \<open>Stream consumer\<close>

text \<open>
  Two library functions are taken as given: \<^verbatim>\<open>json.loads\<close> (\<open>None\<close> for a
  \<^verbatim>\<open>JSONDecodeError\<close>) and \<^verbatim>\<open>str\<close> on a decoded value that is not a string.
\<close>

record py_env =
  json_loads :: "string \<Rightarrow> json option"
  py_repr :: "json \<Rightarrow> string"

definition py_str :: "py_env \<Rightarrow> json \<Rightarrow> string" where
  "py_str env v = (case v of JStr s \<Rightarrow> s | _ \<Rightarrow> py_repr env v)"

definition is_space :: "char \<Rightarrow> bool" where
  "is_space c \<longleftrightarrow>
     c \<in> set [CHR 0x09, CHR 0x0A, CHR 0x0B, CHR 0x0C, CHR 0x0D,
              CHR 0x1C, CHR 0x1D, CHR 0x1E, CHR 0x1F, CHR 0x20]"

definition py_strip :: "string \<Rightarrow> string" where
  "py_strip s = rev (dropWhile is_space (rev (dropWhile is_space s)))"

definition startswith :: "string \<Rightarrow> string \<Rightarrow> bool" where
  "startswith s p \<longleftrightarrow> take (length p) s = p"

fun is_substring :: "string \<Rightarrow> string \<Rightarrow> bool" where
  "is_substring p [] = (p = [])"
| "is_substring p (c # cs) = (startswith (c # cs) p \<or> is_substring p cs)"

text \<open>\<^verbatim>\<open>s.split(":", 1)\<close> unpacked into two names: \<^verbatim>\<open>ValueError\<close> without a colon.\<close>

definition split_colon :: "string \<Rightarrow> (string \<times> string) option" where
  "split_colon s =
     (if CHR '':'' \<in> set s
      then Some (takeWhile (\<lambda>c. c \<noteq> CHR '':'') s, tl (dropWhile (\<lambda>c. c \<noteq> CHR '':'') s))
      else None)"

text \<open>
  What the generator yields. A chunk's \<^verbatim>\<open>id\<close>, \<^verbatim>\<open>created\<close>, \<^verbatim>\<open>model\<close> and
  \<^verbatim>\<open>system_fingerprint\<close> are left out.
  \<^item> \<open>ContentChunk c\<close>: a \<^verbatim>\<open>chat.completion.chunk\<close> frame with delta
    \<^verbatim>\<open>{role: assistant, content: c}\<close> and no finish reason;
  \<^item> \<open>MediaChunk c r\<close>: the single chunk of an image or video stream, with finish reason;
  \<^item> \<open>FinalChunk r\<close>: the chunk with the empty delta \<^verbatim>\<open>{}\<close> and the finish reason;
  \<^item> \<open>DoneSentinel\<close>: \<^verbatim>\<open>data: [DONE]\<close>;
  \<^item> \<open>ErrorFrame e\<close>: the error object as one SSE frame followed by \<^verbatim>\<open>data: [DONE]\<close>,
    in one yield;
  \<^item> \<open>ErrorObject e\<close>: the error object as plain JSON;
  \<^item> \<open>Completion c r\<close>: the \<^verbatim>\<open>chat.completion\<close> object.
\<close>

datatype sse =
    ContentChunk string
  | MediaChunk string json
  | FinalChunk json
  | DoneSentinel
  | ErrorFrame json
  | ErrorObject json
  | Completion string json

text \<open>
  One turn of the loop either times out on the queue or takes an entry from it. Each
  carries the reading of \<^verbatim>\<open>time.time()\<close> that the turn takes if it takes one; clock
  readings are real numbers.
\<close>

datatype queue_event =
    QTimeout real
  | QItem json real

record gen_state =
  accumulated_content :: string
  media_urls :: "json list"
  finish_reason :: json
  streaming_buffer :: string
  last_chunk_time :: real

datatype control = Continue | Break | Return | Raise py_error

definition MIN_CHUNK_SIZE :: nat where
  "MIN_CHUNK_SIZE = 40"

definition MAX_BUFFER_TIME :: real where
  "MAX_BUFFER_TIME = 1 / 2"

definition initial_gen_state :: "real \<Rightarrow> gen_state" where
  "initial_gen_state start =
     \<lparr>accumulated_content = [], media_urls = [], finish_reason = JNull,
      streaming_buffer = [], last_chunk_time = start\<rparr>"

definition wrap_error :: "py_env \<Rightarrow> json \<Rightarrow> json" where
  "wrap_error env e =
     JObj [(''error'', JObj [(''message'', JStr (py_str env e)),
                            (''type'', JStr ''server_error''), (''code'', JNull)])]"

definition emit_error :: "bool \<Rightarrow> json \<Rightarrow> sse list" where
  "emit_error streaming openai_error =
     (if streaming then [ErrorFrame openai_error] else [ErrorObject openai_error])"

text \<open>The \<^verbatim>\<open>asyncio.TimeoutError\<close> branch.\<close>

definition on_timeout :: "bool \<Rightarrow> json \<Rightarrow> gen_state \<Rightarrow> real \<Rightarrow> sse list \<times> gen_state" where
  "on_timeout streaming model_type st current_time =
     (if streaming \<and> model_type = JStr ''chat'' \<and> streaming_buffer st \<noteq> [] \<and>
         MAX_BUFFER_TIME \<le> current_time - last_chunk_time st
      then ([ContentChunk (streaming_buffer st)],
            st\<lparr>streaming_buffer := [], last_chunk_time := current_time\<rparr>)
      else ([], st))"

text \<open>
  The early test for a JSON error text. \<^verbatim>\<open>"error" in error_data\<close> and
  \<^verbatim>\<open>error_data["error"]\<close> are defined on whatever the decoder returned.
\<close>

definition detect_json_error :: "py_env \<Rightarrow> string \<Rightarrow> (py_error + json) option" where
  "detect_json_error env raw_data =
     (if startswith (py_strip raw_data) ''{''
      then (case json_loads env (py_strip raw_data) of
              None \<Rightarrow> None
            | Some (JObj error_data) \<Rightarrow>
                (case dict_get error_data ''error'' of
                   None \<Rightarrow> None
                 | Some (JObj server_error) \<Rightarrow>
                     if dict_contains server_error ''message''
                     then Some (Inr (JObj [(''error'', JObj server_error)]))
                     else Some (Inr (wrap_error env (JObj server_error)))
                 | Some server_error \<Rightarrow> Some (Inr (wrap_error env server_error)))
            | Some (JArr xs) \<Rightarrow> if JStr ''error'' \<in> set xs then Some (Inl TypeError) else None
            | Some (JStr t) \<Rightarrow> if is_substring ''error'' t then Some (Inl TypeError) else None
            | Some _ \<Rightarrow> Some (Inl TypeError))
      else None)"

text \<open>The \<^verbatim>\<open>a2\<close> branch: the urls of a media descriptor list.\<close>

fun collect_media :: "json \<Rightarrow> json list \<Rightarrow> json list \<Rightarrow> py_error + json list" where
  "collect_media model_type urls [] = Inr urls"
| "collect_media model_type urls (JObj item # rest) =
     (let url = json_get item (if model_type = JStr ''image'' then ''image'' else ''url'')
      in collect_media model_type (if truthy url then urls @ [url] else urls) rest)"
| "collect_media model_type urls (v # rest) = Inl AttributeError"

text \<open>The \<^verbatim>\<open>a0\<close> branch of a streaming chat response: buffer, then flush if due.\<close>

definition buffer_delta :: "gen_state \<Rightarrow> string \<Rightarrow> real \<Rightarrow> sse list \<times> gen_state" where
  "buffer_delta st delta current_time =
     (let buf = streaming_buffer st @ delta;
          time_since_last = current_time - last_chunk_time st
      in if MIN_CHUNK_SIZE \<le> length buf \<or> (buf \<noteq> [] \<and> MAX_BUFFER_TIME \<le> time_since_last)
         then ([ContentChunk buf],
               st\<lparr>accumulated_content := accumulated_content st @ buf,
                  streaming_buffer := [], last_chunk_time := current_time\<rparr>)
         else ([], st\<lparr>streaming_buffer := buf\<rparr>))"

text \<open>The tagged frame \<^verbatim>\<open>prefix:content\<close>, inside the inner \<^verbatim>\<open>try\<close>.\<close>

definition on_frame ::
  "py_env \<Rightarrow> bool \<Rightarrow> json \<Rightarrow> gen_state \<Rightarrow> string \<Rightarrow> real \<Rightarrow> sse list \<times> control \<times> gen_state" where
  "on_frame env streaming model_type st raw_data current_time =
     (case split_colon raw_data of
        None \<Rightarrow> ([], Continue, st)
      | Some (prefix, content) \<Rightarrow>
          if (model_type = JStr ''image'' \<or> model_type = JStr ''video'') \<and> prefix = ''a2''
          then (case json_loads env content of
                  None \<Rightarrow> ([], Continue, st)
                | Some media_data_list \<Rightarrow>
                    (case py_iter media_data_list of
                       Inl e \<Rightarrow> ([], Raise e, st)
                     | Inr items \<Rightarrow>
                         (case collect_media model_type (media_urls st) items of
                            Inl e \<Rightarrow> ([], Raise e, st)
                          | Inr urls \<Rightarrow> ([], Continue, st\<lparr>media_urls := urls\<rparr>))))
          else if model_type = JStr ''chat'' \<and> prefix = ''a0''
          then (case json_loads env content of
                  None \<Rightarrow> ([], Continue, st)
                | Some (JStr delta) \<Rightarrow>
                    if streaming
                    then (case buffer_delta st delta current_time of
                            (out, st') \<Rightarrow> (out, Continue, st'))
                    else ([], Continue,
                          st\<lparr>accumulated_content := accumulated_content st @ delta\<rparr>)
                | Some _ \<Rightarrow> ([], Raise TypeError, st))
          else if prefix = ''ad''
          then (case json_loads env content of
                  None \<Rightarrow> ([], Continue, st)
                | Some (JObj finish_data) \<Rightarrow>
                    ([], Continue,
                     st\<lparr>finish_reason :=
                          (case dict_get finish_data ''finishReason'' of
                             None \<Rightarrow> JStr ''stop'' | Some r \<Rightarrow> r)\<rparr>)
                | Some _ \<Rightarrow> ([], Raise AttributeError, st))
          else ([], Continue, st))"

text \<open>One queue entry.\<close>

definition on_item ::
  "py_env \<Rightarrow> bool \<Rightarrow> json \<Rightarrow> gen_state \<Rightarrow> json \<Rightarrow> real \<Rightarrow> sse list \<times> control \<times> gen_state" where
  "on_item env streaming model_type st raw_data current_time =
     (if raw_data = JStr ''[DONE]'' then ([], Break, st)
      else case raw_data of
        JObj d \<Rightarrow>
          (case dict_get d ''error'' of
             Some e \<Rightarrow> (emit_error streaming (wrap_error env e), Return, st)
           | None \<Rightarrow> ([], Continue, st))
      | JStr r \<Rightarrow>
          (case detect_json_error env r of
             Some (Inl e) \<Rightarrow> ([], Raise e, st)
           | Some (Inr openai_error) \<Rightarrow> (emit_error streaming openai_error, Return, st)
           | None \<Rightarrow> on_frame env streaming model_type st r current_time)
      | _ \<Rightarrow> ([], Continue, st))"

definition loop_iteration ::
  "py_env \<Rightarrow> bool \<Rightarrow> json \<Rightarrow> gen_state \<Rightarrow> queue_event \<Rightarrow> sse list \<times> control \<times> gen_state" where
  "loop_iteration env streaming model_type st ev =
     (case ev of
        QTimeout current_time \<Rightarrow>
          (case on_timeout streaming model_type st current_time of
             (out, st') \<Rightarrow> (out, Continue, st'))
      | QItem raw_data current_time \<Rightarrow> on_item env streaming model_type st raw_data current_time)"

text \<open>
  The \<^verbatim>\<open>while True\<close> loop over the turns that the queue provides. When the turns
  run out the generator is still waiting on its queue.
\<close>

datatype loop_end = Waiting | Broke | Returned | Raised py_error

fun run_loop ::
  "py_env \<Rightarrow> bool \<Rightarrow> json \<Rightarrow> gen_state \<Rightarrow> queue_event list \<Rightarrow> sse list \<times> loop_end \<times> gen_state" where
  "run_loop env streaming model_type st [] = ([], Waiting, st)"
| "run_loop env streaming model_type st (ev # evs) =
     (case loop_iteration env streaming model_type st ev of
        (out, Continue, st') \<Rightarrow>
          (case run_loop env streaming model_type st' evs of
             (outs, e, st'') \<Rightarrow> (out @ outs, e, st''))
      | (out, Break, st') \<Rightarrow> (out, Broke, st')
      | (out, Return, st') \<Rightarrow> (out, Returned, st')
      | (out, Raise e, st') \<Rightarrow> (out, Raised e, st'))"

text \<open>The final response generation after \<^verbatim>\<open>[DONE]\<close>.\<close>

fun all_strings :: "json list \<Rightarrow> string list option" where
  "all_strings [] = Some []"
| "all_strings (JStr s # xs) = map_option ((#) s) (all_strings xs)"
| "all_strings (v # xs) = None"

fun join :: "string \<Rightarrow> string list \<Rightarrow> string" where
  "join sep [] = []"
| "join sep [x] = x"
| "join sep (x # y # ys) = x @ sep @ join sep (y # ys)"

definition or_stop :: "json \<Rightarrow> json" where
  "or_stop r = (if truthy r then r else JStr ''stop'')"

definition final_response ::
  "py_env \<Rightarrow> bool \<Rightarrow> json \<Rightarrow> gen_state \<Rightarrow> sse list \<times> py_error option" where
  "final_response env streaming model_type st =
     (let flush = (streaming \<and> model_type = JStr ''chat'' \<and> streaming_buffer st \<noteq> []);
          out1 = (if flush then [ContentChunk (streaming_buffer st)] else []);
          content1 = (if flush then accumulated_content st @ streaming_buffer st
                      else accumulated_content st);
          media = (model_type = JStr ''image'' \<or> model_type = JStr ''video'');
          content2 =
            (if model_type = JStr ''video''
             then (case all_strings (media_urls st) of
                     None \<Rightarrow> Inl TypeError
                   | Some urls \<Rightarrow> Inr (join [CHR 0x0A] urls))
             else if model_type = JStr ''image''
             then Inr (join [CHR 0x0A]
                    (map (\<lambda>url. ''![Generated Image]('' @ py_str env url @ '')'') (media_urls st)))
             else Inr content1)
      in case content2 of
           Inl e \<Rightarrow> (out1, Some e)
         | Inr content \<Rightarrow>
             if streaming
             then (out1 @
                   (if media then [MediaChunk content (or_stop (finish_reason st))] else []) @
                   (if model_type = JStr ''chat'' then [FinalChunk (or_stop (finish_reason st))]
                    else []) @
                   [DoneSentinel], None)
             else (out1 @ [Completion content (or_stop (finish_reason st))], None))"

datatype gen_end = Finished | StillWaiting | EndedOnError | Failed py_error

definition stream_generator ::
  "py_env \<Rightarrow> json \<Rightarrow> json \<Rightarrow> real \<Rightarrow> queue_event list \<Rightarrow> sse list \<times> gen_end" where
  "stream_generator env streaming model_type start evs =
     (case run_loop env (truthy streaming) model_type (initial_gen_state start) evs of
        (outs, Waiting, st) \<Rightarrow> (outs, StillWaiting)
      | (outs, Returned, st) \<Rightarrow> (outs, EndedOnError)
      | (outs, Raised e, st) \<Rightarrow> (outs, Failed e)
      | (outs, Broke, st) \<Rightarrow>
          (case final_response env (truthy streaming) model_type st of
             (out, None) \<Rightarrow> (outs @ out, Finished)
           | (out, Some e) \<Rightarrow> (outs @ out, Failed e)))"

text \<open>
  The generator reads its queue from the shared tables first and yields nothing if
  there is none; \<open>stream_generator\<close> above is the generator once it has its queue.
  When the client goes away the generator is cancelled: it tells the agent, if a link
  is up, and runs its \<^verbatim>\<open>finally\<close> block.
\<close>

definition generator_cancelled :: "server \<Rightarrow> string \<Rightarrow> server" where
  "generator_cancelled s rid =
     generator_finally
       (if browser_ws s \<noteq> None
        then send_text s (JObj [(''type'', JStr ''abort_request''), (''request_id'', JStr rid)])
        else s)
       rid"

section \<open>API handler\<close>




section \<open>Properties of the stream consumer\<close>

subsection \<open>What the client is sent\<close>

fun delta_content :: "sse \<Rightarrow> string" where
  "delta_content (ContentChunk c) = c"
| "delta_content (MediaChunk c r) = c"
| "delta_content x = []"

text \<open>
  The \<^verbatim>\<open>a0\<close> frames of a queue, as the specification speaks of them: an entry that
  is a string starting with the tag \<^verbatim>\<open>a0:\<close>, whose payload is the text that the rest
  decodes to. The entries received are those before the sentinel.
\<close>

definition a0_payload :: "py_env \<Rightarrow> json \<Rightarrow> string" where
  "a0_payload env raw =
     (case raw of
        JStr r \<Rightarrow>
          if startswith r ''a0:''
          then (case json_loads env (drop 3 r) of Some (JStr d) \<Rightarrow> d | _ \<Rightarrow> [])
          else []
      | _ \<Rightarrow> [])"

fun queue_items :: "queue_event list \<Rightarrow> json list" where
  "queue_items [] = []"
| "queue_items (QTimeout t # evs) = queue_items evs"
| "queue_items (QItem raw t # evs) = raw # queue_items evs"

definition received :: "queue_event list \<Rightarrow> json list" where
  "received evs = takeWhile (\<lambda>raw. raw \<noteq> JStr ''[DONE]'') (queue_items evs)"

lemma split_colon_prefix:
  assumes "split_colon r = Some (p, c)"
  shows "r = p @ CHR '':'' # c \<and> CHR '':'' \<notin> set p"
proof -
  let ?P = "\<lambda>c. c \<noteq> CHR '':''"
  from assms have mem: "CHR '':'' \<in> set r" and tw: "takeWhile ?P r = p"
    and dw: "tl (dropWhile ?P r) = c"
    by (auto simp: split_colon_def split: if_splits)
  from mem have ne: "dropWhile ?P r \<noteq> []"
    by simp
  then have "hd (dropWhile ?P r) = CHR '':''"
    using hd_dropWhile [of ?P r] by simp
  with ne dw have "dropWhile ?P r = CHR '':'' # c"
    by (cases "dropWhile ?P r") simp_all
  with tw takeWhile_dropWhile_id [of ?P r] have "r = p @ CHR '':'' # c"
    by simp
  moreover from tw have "CHR '':'' \<notin> set p"
    using set_takeWhileD [of "CHR '':''" ?P r] by auto
  ultimately show ?thesis by simp
qed

lemma split_colon_a0: "split_colon r = Some (''a0'', c) \<longleftrightarrow> r = ''a0:'' @ c"
  using split_colon_prefix [of r "''a0''" c] by (auto simp: split_colon_def)

lemma startswith_a0_iff: "startswith r ''a0:'' \<longleftrightarrow> (\<exists>c. r = ''a0:'' @ c)"
proof
  assume "startswith r ''a0:''"
  then have "take 3 r = ''a0:''" by (simp add: startswith_def numeral_3_eq_3)
  then have "r = ''a0:'' @ drop 3 r"
    using append_take_drop_id [of 3 r] by simp
  then show "\<exists>c. r = ''a0:'' @ c" ..
next
  assume "\<exists>c. r = ''a0:'' @ c"
  then show "startswith r ''a0:''" by (auto simp: startswith_def)
qed

lemma py_strip_head:
  assumes "\<not> is_space a"
  shows "\<exists>ys. py_strip (a # xs) = a # ys"
proof -
  have "dropWhile is_space (rev xs @ [a]) = dropWhile is_space (rev xs) @ [a]"
    using assms by (simp add: dropWhile_append)
  then show ?thesis
    using assms by (simp add: py_strip_def)
qed

lemma detect_json_error_a0:
  assumes "startswith r ''a0:''"
  shows "detect_json_error env r = None"
proof -
  from assms obtain c where r: "r = CHR ''a'' # (''0:'' @ c)"
    by (auto simp: startswith_a0_iff)
  have "\<not> is_space CHR ''a''" by (simp add: is_space_def)
  from py_strip_head [OF this, of "''0:'' @ c"] r
  obtain ys where "py_strip r = CHR ''a'' # ys" by auto
  then show ?thesis
    by (simp add: detect_json_error_def startswith_def)
qed

lemma split_colon_startswith:
  assumes "startswith r ''a0:''"
  shows "split_colon r = Some (''a0'', drop 3 r)"
proof -
  from assms obtain c where "r = ''a0:'' @ c"
    by (auto simp: startswith_a0_iff)
  then show ?thesis by (simp add: split_colon_def)
qed

subsection \<open>Text in equals text out\<close>

fun event_payload :: "py_env \<Rightarrow> queue_event \<Rightarrow> string" where
  "event_payload env (QTimeout t) = []"
| "event_payload env (QItem raw t) = a0_payload env raw"

lemma on_timeout_text:
  "on_timeout b mt st t = (out, st') \<Longrightarrow>
     concat (map delta_content out) @ streaming_buffer st' = streaming_buffer st"
  by (auto simp: on_timeout_def split: if_splits)

lemma buffer_delta_text:
  "buffer_delta st d t = (out, st') \<Longrightarrow>
     concat (map delta_content out) @ streaming_buffer st' = streaming_buffer st @ d"
  by (auto simp: buffer_delta_def Let_def split: if_splits)

lemma on_frame_chat_text:
  assumes "on_frame env True (JStr ''chat'') st r t = (out, Continue, st')"
  shows "concat (map delta_content out) @ streaming_buffer st' =
           streaming_buffer st @ a0_payload env (JStr r)"
proof (cases "startswith r ''a0:''")
  case True
  note sc = split_colon_startswith [OF True]
  show ?thesis
  proof (cases "json_loads env (drop 3 r)")
    case None
    with assms sc True show ?thesis
      by (simp add: on_frame_def a0_payload_def)
  next
    case (Some v)
    show ?thesis
    proof (cases v)
      case (JStr d)
      with assms sc Some obtain "buffer_delta st d t = (out, st')"
        by (auto simp: on_frame_def split: prod.splits)
      from buffer_delta_text [OF this] True Some JStr show ?thesis
        by (simp add: a0_payload_def)
    qed (use assms sc Some in \<open>simp_all add: on_frame_def\<close>)
  qed
next
  case False
  then have pay: "a0_payload env (JStr r) = []"
    by (simp add: a0_payload_def)
  show ?thesis
  proof (cases "split_colon r")
    case None
    with assms pay show ?thesis by (simp add: on_frame_def)
  next
    case (Some pc)
    obtain p c where pc: "pc = (p, c)" by (cases pc)
    with Some False have "p \<noteq> ''a0''"
      by (auto simp: split_colon_a0 startswith_a0_iff)
    with assms Some pc pay show ?thesis
      by (auto simp: on_frame_def split: if_splits option.splits json.splits)
  qed
qed

lemma on_item_chat_text:
  assumes "on_item env True (JStr ''chat'') st raw t = (out, Continue, st')"
  shows "concat (map delta_content out) @ streaming_buffer st' =
           streaming_buffer st @ a0_payload env raw"
proof (cases raw)
  case (JStr r)
  from assms JStr have "on_frame env True (JStr ''chat'') st r t = (out, Continue, st')"
    by (auto simp: on_item_def emit_error_def split: if_splits option.splits sum.splits)
  from on_frame_chat_text [OF this] JStr show ?thesis by simp
qed (use assms in \<open>auto simp: on_item_def a0_payload_def emit_error_def split: option.splits if_splits\<close>)

lemma loop_iteration_chat_text:
  assumes "loop_iteration env True (JStr ''chat'') st ev = (out, Continue, st')"
  shows "concat (map delta_content out) @ streaming_buffer st' =
           streaming_buffer st @ event_payload env ev"
  using assms
  by (cases ev) (auto simp: loop_iteration_def on_timeout_text on_item_chat_text split: prod.splits)

lemma loop_iteration_break:
  assumes "loop_iteration env b mt st ev = (out, Break, st')"
  shows "out = [] \<and> st' = st \<and> (\<exists>t. ev = QItem (JStr ''[DONE]'') t)"
proof (cases ev)
  case (QTimeout t)
  with assms show ?thesis
    by (simp add: loop_iteration_def split: prod.splits)
next
  case (QItem raw t)
  have frame: "on_frame env b mt st r t \<noteq> (out, Break, st')" for r
    by (auto simp: on_frame_def split: option.splits prod.splits json.splits sum.splits)
  from assms QItem frame show ?thesis
    by (auto simp: loop_iteration_def on_item_def emit_error_def
             split: if_splits json.splits option.splits sum.splits)
qed


lemma received_Cons_timeout [simp]: "received (QTimeout t # evs) = received evs"
  by (simp add: received_def)

lemma received_Cons_item [simp]:
  "received (QItem raw t # evs) = (if raw = JStr ''[DONE]'' then [] else raw # received evs)"
  by (simp add: received_def)

lemma loop_iteration_continue_not_done:
  assumes "loop_iteration env b mt st ev = (out, Continue, st')"
  shows "ev \<noteq> QItem (JStr ''[DONE]'') t"
  using assms by (auto simp: loop_iteration_def on_item_def)

lemma run_loop_chat_text:
  assumes "run_loop env True (JStr ''chat'') st evs = (outs, Broke, st')"
  shows "concat (map delta_content outs) @ streaming_buffer st' =
           streaming_buffer st @ concat (map (a0_payload env) (received evs))"
  using assms
proof (induction evs arbitrary: st outs)
  case Nil
  then show ?case by simp
next
  case (Cons ev evs)
  obtain out c st1 where it: "loop_iteration env True (JStr ''chat'') st ev = (out, c, st1)"
    by (cases "loop_iteration env True (JStr ''chat'') st ev") auto
  show ?case
  proof (cases c)
    case Continue
    obtain outs1 e st2 where rest: "run_loop env True (JStr ''chat'') st1 evs = (outs1, e, st2)"
      by (cases "run_loop env True (JStr ''chat'') st1 evs") auto
    with Cons.prems it Continue have eq: "outs = out @ outs1" "e = Broke" "st2 = st'"
      by simp_all
    from Cons.IH [of st1 outs1] rest eq
    have ih: "concat (map delta_content outs1) @ streaming_buffer st' =
                streaming_buffer st1 @ concat (map (a0_payload env) (received evs))"
      by simp
    from it Continue have step: "concat (map delta_content out) @ streaming_buffer st1 =
                streaming_buffer st @ event_payload env ev"
      by (simp add: loop_iteration_chat_text)
    have pay: "event_payload env ev @ concat (map (a0_payload env) (received evs)) =
                 concat (map (a0_payload env) (received (ev # evs)))"
    proof (cases ev)
      case (QTimeout t)
      then show ?thesis by simp
    next
      case (QItem raw t)
      with it Continue have "raw \<noteq> JStr ''[DONE]''"
        using loop_iteration_continue_not_done [of env True "JStr ''chat''" st ev out st1 t]
        by auto
      with QItem show ?thesis by simp
    qed
    have "concat (map delta_content outs) @ streaming_buffer st' =
            concat (map delta_content out) @ (concat (map delta_content outs1) @ streaming_buffer st')"
      by (simp add: eq)
    also have "\<dots> = (concat (map delta_content out) @ streaming_buffer st1) @
                      concat (map (a0_payload env) (received evs))"
      by (simp add: ih)
    also have "\<dots> = streaming_buffer st @
                      (event_payload env ev @ concat (map (a0_payload env) (received evs)))"
      by (simp add: step)
    finally show ?thesis by (simp add: pay)
  next
    case Break
    with it have "out = []" "st1 = st" "\<exists>t. ev = QItem (JStr ''[DONE]'') t"
      using loop_iteration_break [of env True "JStr ''chat''" st ev out st1] by simp_all
    with Cons.prems it Break show ?thesis by auto
  next
    case Return
    with Cons.prems it show ?thesis by simp
  next
    case (Raise e)
    with Cons.prems it show ?thesis by simp
  qed
qed

lemma final_response_chat_text:
  assumes "final_response env True (JStr ''chat'') st = (out, None)"
  shows "concat (map delta_content out) = streaming_buffer st"
  using assms by (auto simp: final_response_def Let_def split: if_splits)

text \<open>
  C2. A streaming chat response that ran to the \<^verbatim>\<open>[DONE]\<close> sentinel and ended
  normally: the \<^verbatim>\<open>delta.content\<close> fields of the emitted chunks, concatenated in
  emission order, are the decoded payloads of the \<^verbatim>\<open>a0\<close> frames received before the
  sentinel, concatenated in arrival order.
\<close>

theorem streamed_text_is_received_text:
  assumes "truthy streaming"
    and "stream_generator env streaming (JStr ''chat'') start evs = (outs, Finished)"
  shows "concat (map delta_content outs) = concat (map (a0_payload env) (received evs))"
proof -
  obtain louts e st where loop:
    "run_loop env True (JStr ''chat'') (initial_gen_state start) evs = (louts, e, st)"
    by (cases "run_loop env True (JStr ''chat'') (initial_gen_state start) evs") auto
  with assms have broke: "e = Broke"
    by (cases e) (auto simp: stream_generator_def split: prod.splits option.splits)
  obtain fout fe where fin: "final_response env True (JStr ''chat'') st = (fout, fe)"
    by (cases "final_response env True (JStr ''chat'') st") auto
  with assms loop broke have outs: "outs = louts @ fout" and fe: "fe = None"
    by (auto simp: stream_generator_def split: option.splits)
  from run_loop_chat_text [of env "initial_gen_state start" evs louts st] loop broke
  have "concat (map delta_content louts) @ streaming_buffer st =
          concat (map (a0_payload env) (received evs))"
    by (simp add: initial_gen_state_def)
  moreover from fin fe have "concat (map delta_content fout) = streaming_buffer st"
    by (simp add: final_response_chat_text)
  ultimately show ?thesis by (simp add: outs)
qed


subsection \<open>Coalescing\<close>

text \<open>
  The turns of the loop with the clock reading and the output of each, up to and
  including the turn that leaves the loop.
\<close>

fun clock :: "queue_event \<Rightarrow> real" where
  "clock (QTimeout t) = t"
| "clock (QItem raw t) = t"

fun emissions ::
  "py_env \<Rightarrow> bool \<Rightarrow> json \<Rightarrow> gen_state \<Rightarrow> queue_event list \<Rightarrow> (real \<times> sse list) list" where
  "emissions env streaming model_type st [] = []"
| "emissions env streaming model_type st (ev # evs) =
     (case loop_iteration env streaming model_type st ev of
        (out, Continue, st') \<Rightarrow> (clock ev, out) # emissions env streaming model_type st' evs
      | (out, c, st') \<Rightarrow> [(clock ev, out)])"

text \<open>
  The coalescing rule on such a trace. \<open>prev\<close> is the time of the previous flush, if
  there was one: a content chunk emitted at time \<open>t\<close> is at least \<^verbatim>\<open>MIN_CHUNK_SIZE\<close>
  long, or \<^verbatim>\<open>MAX_BUFFER_TIME\<close> has passed since \<open>prev\<close>.
\<close>

fun is_content_chunk :: "sse \<Rightarrow> bool" where
  "is_content_chunk (ContentChunk c) = True"
| "is_content_chunk x = False"

fun chunk_ok :: "real option \<Rightarrow> real \<Rightarrow> sse \<Rightarrow> bool" where
  "chunk_ok prev t (ContentChunk c) =
     (MIN_CHUNK_SIZE \<le> length c \<or>
      (case prev of None \<Rightarrow> False | Some tp \<Rightarrow> MAX_BUFFER_TIME \<le> t - tp))"
| "chunk_ok prev t x = True"

fun coalesced :: "real option \<Rightarrow> (real \<times> sse list) list \<Rightarrow> bool" where
  "coalesced prev [] = True"
| "coalesced prev ((t, out) # tr) =
     (list_all (chunk_ok prev t) out \<and>
      coalesced (if list_ex is_content_chunk out then Some t else prev) tr)"

lemma on_timeout_coalesced:
  assumes "on_timeout b mt st t = (out, st')"
  shows "list_all (chunk_ok (Some (last_chunk_time st)) t) out \<and>
         last_chunk_time st' = (if list_ex is_content_chunk out then t else last_chunk_time st)"
  using assms by (auto simp: on_timeout_def split: if_splits)

lemma buffer_delta_coalesced:
  assumes "buffer_delta st d t = (out, st')"
  shows "list_all (chunk_ok (Some (last_chunk_time st)) t) out \<and>
         last_chunk_time st' = (if list_ex is_content_chunk out then t else last_chunk_time st)"
  using assms by (auto simp: buffer_delta_def Let_def split: if_splits)

lemma on_frame_coalesced:
  assumes "on_frame env b mt st r t = (out, c, st')"
  shows "list_all (chunk_ok (Some (last_chunk_time st)) t) out \<and>
         last_chunk_time st' = (if list_ex is_content_chunk out then t else last_chunk_time st)"
proof (cases "\<exists>d. buffer_delta st d t = (out, st')")
  case True
  then obtain d where "buffer_delta st d t = (out, st')" ..
  then show ?thesis by (rule buffer_delta_coalesced)
next
  case False
  with assms have "out = [] \<and> last_chunk_time st' = last_chunk_time st"
    by (auto simp: on_frame_def split: option.splits if_splits json.splits sum.splits prod.splits)
  then show ?thesis by simp
qed

lemma on_item_coalesced:
  assumes "on_item env b mt st raw t = (out, c, st')"
  shows "list_all (chunk_ok (Some (last_chunk_time st)) t) out \<and>
         (c = Continue \<longrightarrow>
            last_chunk_time st' = (if list_ex is_content_chunk out then t else last_chunk_time st))"
proof (cases "\<exists>r. on_frame env b mt st r t = (out, c, st')")
  case True
  then show ?thesis using on_frame_coalesced by blast
next
  case False
  with assms show ?thesis
    by (auto simp: on_item_def emit_error_def
             split: if_splits json.splits option.splits sum.splits)
qed

lemma loop_iteration_coalesced:
  assumes "loop_iteration env b mt st ev = (out, c, st')"
  shows "list_all (chunk_ok (Some (last_chunk_time st)) (clock ev)) out \<and>
         (c = Continue \<longrightarrow>
            last_chunk_time st' =
              (if list_ex is_content_chunk out then clock ev else last_chunk_time st))"
proof (cases ev)
  case (QTimeout t)
  with assms obtain "on_timeout b mt st t = (out, st')"
    by (auto simp: loop_iteration_def split: prod.splits)
  from on_timeout_coalesced [OF this] QTimeout show ?thesis by simp
next
  case (QItem raw t)
  with assms have "on_item env b mt st raw t = (out, c, st')"
    by (simp add: loop_iteration_def)
  from on_item_coalesced [OF this] QItem show ?thesis by simp
qed

lemma emissions_coalesced:
  "coalesced (Some (last_chunk_time st)) (emissions env b mt st evs)"
proof (induction evs arbitrary: st)
  case Nil
  show ?case by simp
next
  case (Cons ev evs)
  obtain out c st' where it: "loop_iteration env b mt st ev = (out, c, st')"
    by (cases "loop_iteration env b mt st ev") auto
  note turn = loop_iteration_coalesced [OF it]
  show ?case
  proof (cases c)
    case Continue
    with turn have "(if list_ex is_content_chunk out then Some (clock ev)
                     else Some (last_chunk_time st)) = Some (last_chunk_time st')"
      by simp
    with Cons.IH [of st'] turn it Continue show ?thesis by simp
  qed (use turn it in simp_all)
qed

lemma run_loop_emissions:
  "fst (run_loop env b mt st evs) = concat (map snd (emissions env b mt st evs))"
proof (induction evs arbitrary: st)
  case Nil
  show ?case by simp
next
  case (Cons ev evs)
  obtain out c st' where it: "loop_iteration env b mt st ev = (out, c, st')"
    by (cases "loop_iteration env b mt st ev") auto
  obtain outs e st'' where rest: "run_loop env b mt st' evs = (outs, e, st'')"
    by (cases "run_loop env b mt st' evs") auto
  show ?case
    using it rest Cons.IH [of st'] by (cases c) simp_all
qed


subsection \<open>A sample run\<close>

text \<open>
  For concrete runs, \<^verbatim>\<open>json.loads\<close> on the two kinds of text they use: a string
  literal without escapes, and the terminal metadata object.
\<close>

definition quoted :: "string \<Rightarrow> string" where
  "quoted s = CHR 0x22 # s @ [CHR 0x22]"

definition sample_loads :: "string \<Rightarrow> json option" where
  "sample_loads s =
     (if 2 \<le> length s \<and> hd s = CHR 0x22 \<and> last s = CHR 0x22 \<and>
         CHR 0x22 \<notin> set (butlast (tl s)) \<and> CHR 0x5C \<notin> set (butlast (tl s))
      then Some (JStr (butlast (tl s)))
      else if s = ''{'' @ quoted ''finishReason'' @ '':'' @ quoted ''stop'' @ ''}''
      then Some (JObj [(''finishReason'', JStr ''stop'')])
      else None)"

definition sample_env :: py_env where
  "sample_env = \<lparr>json_loads = sample_loads, py_repr = (\<lambda>v. [])\<rparr>"

definition sample_frames :: "queue_event list" where
  "sample_frames =
     [QItem (JStr (''a0:'' @ quoted ''He'')) 1,
      QItem (JStr (''a0:'' @ quoted ''llo'')) (11 / 10),
      QItem (JStr (''a0:'' @ quoted '' world, this is a longer delta that exceeds the minimum.''))
        (12 / 10),
      QItem (JStr (''ad:{'' @ quoted ''finishReason'' @ '':'' @ quoted ''stop'' @ ''}'')) (13 / 10),
      QItem (JStr ''[DONE]'') (14 / 10)]"

lemmas generator_simps =
  stream_generator_def loop_iteration_def on_item_def on_frame_def on_timeout_def
  buffer_delta_def detect_json_error_def split_colon_def py_strip_def startswith_def
  is_space_def initial_gen_state_def final_response_def or_stop_def emit_error_def
  MIN_CHUNK_SIZE_def MAX_BUFFER_TIME_def sample_env_def sample_loads_def quoted_def
  sample_frames_def Let_def dict_get_def dict_contains_def json_get_def wrap_error_def

text \<open>
  C2 on the sample run: three \<^verbatim>\<open>a0\<close> frames, the terminal metadata and the sentinel.
\<close>

theorem streamed_text_is_received_text_witness:
  "truthy (JBool True) \<and>
   stream_generator sample_env (JBool True) (JStr ''chat'') 0 sample_frames =
     ([ContentChunk ''He'',
       ContentChunk ''llo world, this is a longer delta that exceeds the minimum.'',
       FinalChunk (JStr ''stop''), DoneSentinel], Finished) \<and>
   concat (map (a0_payload sample_env) (received sample_frames)) =
     ''Hello world, this is a longer delta that exceeds the minimum.''"
proof -
  have run: "stream_generator sample_env (JBool True) (JStr ''chat'') 0 sample_frames =
     ([ContentChunk ''He'',
       ContentChunk ''llo world, this is a longer delta that exceeds the minimum.'',
       FinalChunk (JStr ''stop''), DoneSentinel], Finished)"
    by (simp add: generator_simps)
  from streamed_text_is_received_text [OF _ run] run show ?thesis
    by simp
qed

text \<open>
  C3, as the code has it. Every content chunk that the loop emits is at least
  \<^verbatim>\<open>MIN_CHUNK_SIZE\<close> = 40 characters long, or at least \<^verbatim>\<open>MAX_BUFFER_TIME\<close> = 500 ms
  have passed since the previous flush, or, when nothing has been flushed yet, since
  the generator started. The loop's output is the output of its turns in order; the
  only other content chunk of a finished response is the final flush.
\<close>

theorem chunks_coalesced:
  "coalesced (Some start)
     (emissions env (truthy streaming) model_type (initial_gen_state start) evs) \<and>
   fst (run_loop env (truthy streaming) model_type (initial_gen_state start) evs) =
     concat (map snd
       (emissions env (truthy streaming) model_type (initial_gen_state start) evs)) \<and>
   (\<forall>outs. stream_generator env streaming model_type start evs = (outs, Finished) \<longrightarrow>
      (\<exists>st. outs =
         concat (map snd
           (emissions env (truthy streaming) model_type (initial_gen_state start) evs)) @
         fst (final_response env (truthy streaming) model_type st)))"
proof -
  let ?b = "truthy streaming"
  let ?st = "initial_gen_state start"
  have "coalesced (Some (last_chunk_time ?st)) (emissions env ?b model_type ?st evs)"
    by (rule emissions_coalesced)
  then have a: "coalesced (Some start) (emissions env ?b model_type ?st evs)"
    by (simp add: initial_gen_state_def)
  have b: "fst (run_loop env ?b model_type ?st evs) =
             concat (map snd (emissions env ?b model_type ?st evs))"
    by (rule run_loop_emissions)
  have c: "\<exists>st. outs = concat (map snd (emissions env ?b model_type ?st evs)) @
                   fst (final_response env ?b model_type st)"
    if "stream_generator env streaming model_type start evs = (outs, Finished)" for outs
  proof -
    obtain louts e st where loop: "run_loop env ?b model_type ?st evs = (louts, e, st)"
      by (cases "run_loop env ?b model_type ?st evs") auto
    with that have "outs = louts @ fst (final_response env ?b model_type st)"
      by (cases e) (auto simp: stream_generator_def split: prod.splits option.splits)
    with b loop show ?thesis by auto
  qed
  from a b c show ?thesis by blast
qed

theorem chunks_coalesced_witness:
  "stream_generator sample_env (JBool True) (JStr ''chat'') 0 sample_frames =
     ([ContentChunk ''He'',
       ContentChunk ''llo world, this is a longer delta that exceeds the minimum.'',
       FinalChunk (JStr ''stop''), DoneSentinel], Finished) \<and>
   emissions sample_env (truthy (JBool True)) (JStr ''chat'') (initial_gen_state 0) sample_frames =
     [(1, [ContentChunk ''He'']), (11 / 10, []),
      (12 / 10, [ContentChunk ''llo world, this is a longer delta that exceeds the minimum.'']),
      (13 / 10, []), (14 / 10, [])] \<and>
   coalesced (Some 0)
     (emissions sample_env (truthy (JBool True)) (JStr ''chat'') (initial_gen_state 0)
        sample_frames)"
proof -
  have "emissions sample_env (truthy (JBool True)) (JStr ''chat'') (initial_gen_state 0)
          sample_frames =
     [(1, [ContentChunk ''He'']), (11 / 10, []),
      (12 / 10, [ContentChunk ''llo world, this is a longer delta that exceeds the minimum.'']),
      (13 / 10, []), (14 / 10, [])]"
    by (simp add: generator_simps)
  moreover have "stream_generator sample_env (JBool True) (JStr ''chat'') 0 sample_frames =
     ([ContentChunk ''He'',
       ContentChunk ''llo world, this is a longer delta that exceeds the minimum.'',
       FinalChunk (JStr ''stop''), DoneSentinel], Finished)"
    by (simp add: generator_simps)
  ultimately show ?thesis
    using chunks_coalesced [of 0 sample_env "JBool True" "JStr ''chat''" sample_frames]
    by simp
qed

text \<open>
  The claim as the specification words it measures the 500 ms from the previous flush
  only. The first chunk of the sample run has no flush before it and is two
  characters long: the generator had started more than 500 ms earlier.
\<close>

theorem first_chunk_counterexample:
  "emissions sample_env True (JStr ''chat'') (initial_gen_state 0)
     [QItem (JStr (''a0:'' @ quoted ''He'')) 1,
      QItem (JStr (''a0:'' @ quoted ''llo'')) (11 / 10)] =
     [(1, [ContentChunk ''He'']), (11 / 10, [])] \<and>
   \<not> coalesced None
     (emissions sample_env True (JStr ''chat'') (initial_gen_state 0)
        [QItem (JStr (''a0:'' @ quoted ''He'')) 1,
         QItem (JStr (''a0:'' @ quoted ''llo'')) (11 / 10)])"
  by (simp add: generator_simps)


subsection \<open>A streaming response is made of SSE frames\<close>









section \<open>A sample server\<close>











section \<open>Reconnection\<close>

text \<open>What \<^verbatim>\<open>update_status(request_id, PROCESSING)\<close> makes of a request.\<close>

definition restored :: "real \<Rightarrow> PersistentRequest \<Rightarrow> PersistentRequest" where
  "restored now r = r\<lparr>status := PROCESSING, last_activity_at := Some now\<rparr>"

lemma restored_idem [simp]: "restored now (restored now r) = restored now r"
  by (simp add: restored_def)

lemma response_queue_restored [simp]: "response_queue (restored now r) = response_queue r"
  by (simp add: restored_def)


lemma update_status_fields [simp]:
  "queues (update_status s now k st) = queues s"
  "response_channels (update_status s now k st) = response_channels s"
  "ws_sent (update_status s now k st) = ws_sent s"
  "REQUEST_TIMEOUT_SECONDS (update_status s now k st) = REQUEST_TIMEOUT_SECONDS s"
  by (simp_all add: update_status_def split: option.splits)


lemma websocket_accept_fields [simp]:
  "active_requests (websocket_accept s now ws) = active_requests s"
  "queues (websocket_accept s now ws) = queues s"
  "response_channels (websocket_accept s now ws) = response_channels s"
  "REQUEST_TIMEOUT_SECONDS (websocket_accept s now ws) = REQUEST_TIMEOUT_SECONDS s"
  by (simp_all add: websocket_accept_def send_text_def Let_def)











lemma queue_private_send_text [simp]:
  "queue_private (send_text s f) rid q = queue_private s rid q"
  by (simp add: queue_private_def send_text_def)

lemma queue_private_websocket_accept [simp]:
  "queue_private (websocket_accept s now ws) rid q = queue_private s rid q"
  by (simp add: queue_private_def)

lemma send_text_fields [simp]:
  "active_requests (send_text s f) = active_requests s"
  "queues (send_text s f) = queues s"
  "response_channels (send_text s f) = response_channels s"
  "REQUEST_TIMEOUT_SECONDS (send_text s f) = REQUEST_TIMEOUT_SECONDS s"
  by (simp_all add: send_text_def)

lemma get_request_send_text [simp]: "get_request (send_text s f) k = get_request s k"
  by (simp add: get_request_def)

lemma complete_request_fields [simp]:
  "queues (complete_request s k) = queues s"
  "response_channels (complete_request s k) = response_channels s"
  by (simp_all add: complete_request_def)








section \<open>Frames for unknown requests\<close>





section \<open>Payload translator\<close>

subsection \<open>The two regular expressions\<close>

text \<open>
  \<^verbatim>\<open>\w\<close> and the base64 class on ASCII. Both patterns start with
  \<^verbatim>\<open>data:(image/\w+);base64,\<close>: the greedy \<^verbatim>\<open>\w+\<close> takes the whole run of word
  characters, since the \<^verbatim>\<open>;\<close> that must follow is not one of them.
\<close>

definition is_word_char :: "char \<Rightarrow> bool" where
  "is_word_char c \<longleftrightarrow>
     c \<in> set ''abcdefghijklmnopqrstuvwxyzABCDEFGHIJKLMNOPQRSTUVWXYZ0123456789_''"

definition is_base64_char :: "char \<Rightarrow> bool" where
  "is_base64_char c \<longleftrightarrow>
     c \<in> set ''abcdefghijklmnopqrstuvwxyzABCDEFGHIJKLMNOPQRSTUVWXYZ0123456789+/=''"

definition match_data_image :: "string \<Rightarrow> (string \<times> string) option" where
  "match_data_image s =
     (if startswith s ''data:image/''
      then let after = drop 11 s;
               subtype = takeWhile is_word_char after;
               rest = dropWhile is_word_char after
           in if subtype \<noteq> [] \<and> startswith rest '';base64,''
              then Some (''image/'' @ subtype, drop 8 rest)
              else None
      else None)"

text \<open>
  \<^verbatim>\<open>re.match(r"data:(image/\w+);base64,(.*)", url)\<close>: the groups, if the url matches
  at its start. The dot stops at a line feed.
\<close>

definition re_match_image_url :: "string \<Rightarrow> (string \<times> string) option" where
  "re_match_image_url url =
     (case match_data_image url of
        None \<Rightarrow> None
      | Some (mime_type, rest) \<Rightarrow> Some (mime_type, takeWhile (\<lambda>c. c \<noteq> CHR 0x0A) rest))"

text \<open>
  \<^verbatim>\<open>data:(image/\w+);base64,([a-zA-Z0-9+/=]+)\<close> at the start of a text: the groups
  and what follows the match.
\<close>

definition match_embedded :: "string \<Rightarrow> (string \<times> string \<times> string) option" where
  "match_embedded s =
     (case match_data_image s of
        None \<Rightarrow> None
      | Some (mime_type, rest) \<Rightarrow>
          let base64_data = takeWhile is_base64_char rest
          in if base64_data = [] then None
             else Some (mime_type, base64_data, dropWhile is_base64_char rest))"

lemma match_data_image_shorter:
  assumes "match_data_image s = Some (m, rest)"
  shows "length rest < length s"
proof -
  from assms have sw: "startswith s ''data:image/''"
    and rest: "rest = drop 8 (dropWhile is_word_char (drop 11 s))"
    by (auto simp: match_data_image_def Let_def split: if_splits)
  from sw have "11 \<le> length s"
    by (auto simp: startswith_def dest: arg_cong [where f = length])
  moreover have "length rest \<le> length (drop 11 s)"
    unfolding rest using length_dropWhile_le [of is_word_char "drop 11 s"] by simp
  ultimately show ?thesis by simp
qed

lemma match_embedded_shorter:
  assumes "match_embedded s = Some (m, b, rest)"
  shows "length rest < length s"
proof -
  from assms obtain r where r: "match_data_image s = Some (m, r)"
    and rest: "rest = dropWhile is_base64_char r"
    by (auto simp: match_embedded_def Let_def split: option.splits if_splits)
  from match_data_image_shorter [OF r] length_dropWhile_le [of is_base64_char r] rest
  show ?thesis by simp
qed

text \<open>\<^verbatim>\<open>re.findall\<close> and \<^verbatim>\<open>re.sub(..., "", text)\<close>: leftmost matches, not overlapping.\<close>

function re_findall :: "string \<Rightarrow> (string \<times> string) list" where
  "re_findall [] = []"
| "re_findall (c # cs) =
     (case match_embedded (c # cs) of
        Some (mime_type, base64_data, rest) \<Rightarrow> (mime_type, base64_data) # re_findall rest
      | None \<Rightarrow> re_findall cs)"
  by pat_completeness auto
termination
  by (relation "measure length") (auto dest: match_embedded_shorter)

function re_sub_remove :: "string \<Rightarrow> string" where
  "re_sub_remove [] = []"
| "re_sub_remove (c # cs) =
     (case match_embedded (c # cs) of
        Some (mime_type, base64_data, rest) \<Rightarrow> re_sub_remove rest
      | None \<Rightarrow> c # re_sub_remove cs)"
  by pat_completeness auto
termination
  by (relation "measure length") (auto dest: match_embedded_shorter)

subsection \<open>Attachments\<close>

text \<open>
  \<^verbatim>\<open>s.split('/')\<close>, and \<^verbatim>\<open>str\<close> of a list of strings as an f-string renders it, for
  strings without quotes, backslashes or control characters.
\<close>

fun split_on :: "char \<Rightarrow> string \<Rightarrow> string list" where
  "split_on sep [] = [[]]"
| "split_on sep (c # cs) =
     (if c = sep then [] # split_on sep cs
      else case split_on sep cs of
             [] \<Rightarrow> [[c]]
           | part # parts \<Rightarrow> (c # part) # parts)"

definition single_quoted :: "string \<Rightarrow> string" where
  "single_quoted s = CHR 0x27 # s @ [CHR 0x27]"

definition repr_str_list :: "string list \<Rightarrow> string" where
  "repr_str_list xs = ''['' @ join '', '' (map single_quoted xs) @ '']''"

definition attachment :: "string \<Rightarrow> string \<Rightarrow> string \<Rightarrow> json" where
  "attachment uuid mime_type base64_data =
     (let file_ext = split_on CHR ''/'' mime_type;
          filename = ''upload-'' @ uuid @ ''.'' @ repr_str_list file_ext
      in JObj [(''fileName'', JStr filename), (''contentType'', JStr mime_type),
               (''data'', JStr base64_data)])"

subsection \<open>Messages\<close>

text \<open>
  Every \<^verbatim>\<open>uuid.uuid4()\<close> is a draw from a supply: \<open>uuid n\<close> is the text of the
  \<open>n\<close>-th identifier drawn during one translation.

  The parts of a multimodal content array: the texts collected, the attachments
  collected, and the number of identifiers drawn so far.
\<close>

fun process_parts ::
  "(nat \<Rightarrow> string) \<Rightarrow> nat \<Rightarrow> json list \<Rightarrow> json list \<Rightarrow> json list \<Rightarrow>
     py_error + (json list \<times> json list \<times> nat)" where
  "process_parts uuid n [] text_parts files = Inr (text_parts, files, n)"
| "process_parts uuid n (JObj part # rest) text_parts files =
     (if dict_get part ''type'' = Some (JStr ''text'')
      then process_parts uuid n rest
             (text_parts @ [case dict_get part ''text'' of None \<Rightarrow> JStr [] | Some t \<Rightarrow> t]) files
      else if dict_get part ''type'' = Some (JStr ''image_url'')
      then (case (case dict_get part ''image_url'' of None \<Rightarrow> JObj [] | Some v \<Rightarrow> v) of
              JObj image_obj \<Rightarrow>
                (case (case dict_get image_obj ''url'' of None \<Rightarrow> JStr [] | Some u \<Rightarrow> u) of
                   JStr image_url \<Rightarrow>
                     (case re_match_image_url image_url of
                        Some (mime_type, base64_data) \<Rightarrow>
                          process_parts uuid (Suc n) rest text_parts
                            (files @ [attachment (uuid n) mime_type base64_data])
                      | None \<Rightarrow> process_parts uuid n rest text_parts files)
                 | _ \<Rightarrow> Inl TypeError)
            | _ \<Rightarrow> Inl AttributeError)
      else process_parts uuid n rest text_parts files)"
| "process_parts uuid n (v # rest) text_parts files = Inl AttributeError"

definition embedded_attachments :: "(nat \<Rightarrow> string) \<Rightarrow> nat \<Rightarrow> (string \<times> string) list \<Rightarrow> json list" where
  "embedded_attachments uuid n matches =
     map (\<lambda>(i, (mime_type, base64_data)). attachment (uuid (n + i)) mime_type base64_data)
       (enumerate 0 matches)"

text \<open>One message of the client's list: the processed message, its attachments, the draws.\<close>

definition process_message ::
  "(nat \<Rightarrow> string) \<Rightarrow> nat \<Rightarrow> json \<Rightarrow> py_error + (json dict \<times> json list \<times> nat)" where
  "process_message uuid n msg =
     (case msg of
        JObj m \<Rightarrow>
          (case (case dict_get m ''content'' of None \<Rightarrow> JStr [] | Some c \<Rightarrow> c) of
             JArr parts \<Rightarrow>
               (case process_parts uuid n parts [] [] of
                  Inl e \<Rightarrow> Inl e
                | Inr (text_parts, files, n') \<Rightarrow>
                    (case all_strings text_parts of
                       None \<Rightarrow> Inl TypeError
                     | Some texts \<Rightarrow>
                         Inr (dict_set m ''content'' (JStr (join [CHR 0x0A] texts)), files, n')))
           | JStr text_content \<Rightarrow>
               (let matches = re_findall text_content
                in if matches \<noteq> []
                   then Inr (dict_set m ''content'' (JStr (py_strip (re_sub_remove text_content))),
                             embedded_attachments uuid n matches, n + length matches)
                   else Inr (dict_set m ''content'' (JStr text_content), [], n))
           | _ \<Rightarrow> Inr (m, [], n))
      | _ \<Rightarrow> Inl AttributeError)"

fun process_messages ::
  "(nat \<Rightarrow> string) \<Rightarrow> nat \<Rightarrow> json list \<Rightarrow> py_error + (json dict list \<times> json list \<times> nat)" where
  "process_messages uuid n [] = Inr ([], [], n)"
| "process_messages uuid n (msg # msgs) =
     (case process_message uuid n msg of
        Inl e \<Rightarrow> Inl e
      | Inr (new_msg, files, n') \<Rightarrow>
          (case process_messages uuid n' msgs of
             Inl e \<Rightarrow> Inl e
           | Inr (processed, more_files, n'') \<Rightarrow>
               Inr (new_msg # processed, files @ more_files, n'')))"

text \<open>The index of the last message whose role is \<^verbatim>\<open>user\<close>, searched from the end.\<close>

definition is_user :: "json dict \<Rightarrow> bool" where
  "is_user msg \<longleftrightarrow> dict_get msg ''role'' = Some (JStr ''user'')"

definition last_user_message_index :: "json dict list \<Rightarrow> nat option" where
  "last_user_message_index processed_messages =
     (case filter (\<lambda>i. is_user (processed_messages ! i)) (rev [0..<length processed_messages]) of
        [] \<Rightarrow> None
      | i # _ \<Rightarrow> Some i)"

definition empty_user_message :: "json dict" where
  "empty_user_message = [(''role'', JStr ''user''), (''content'', JStr '' '')]"

definition insert_empty_user :: "json \<Rightarrow> json dict list \<Rightarrow> json dict list" where
  "insert_empty_user modality processed_messages =
     (case last_user_message_index processed_messages of
        Some i \<Rightarrow>
          if modality = JStr ''chat''
          then take (Suc i) processed_messages @ [empty_user_message] @
               drop (Suc i) processed_messages
          else processed_messages
      | None \<Rightarrow> processed_messages)"

text \<open>The Arena form of message \<open>i\<close>; \<^verbatim>\<open>msg['content']\<close> raises if the key is missing.\<close>

definition coerce_role :: "json option \<Rightarrow> json" where
  "coerce_role original_role =
     (if original_role \<in> {Some (JStr ''user''), Some (JStr ''assistant''), Some (JStr ''data'')}
      then the original_role else JStr ''user'')"

definition arena_message ::
  "string \<Rightarrow> json \<Rightarrow> string list \<Rightarrow> nat \<Rightarrow> json dict \<Rightarrow> json option" where
  "arena_message evaluation_id model_id message_ids i msg =
     (case dict_get msg ''content'' of
        None \<Rightarrow> None
      | Some content \<Rightarrow>
          let role = coerce_role (dict_get msg ''role'')
          in Some (JObj
               [(''id'', JStr (message_ids ! i)), (''role'', role), (''content'', content),
                (''experimental_attachments'', JArr []),
                (''parentMessageIds'',
                   JArr (if 0 < i then [JStr (message_ids ! (i - 1))] else [])),
                (''participantPosition'', JStr ''a''),
                (''modelId'', if role = JStr ''assistant'' then model_id else JNull),
                (''evaluationSessionId'', JStr evaluation_id),
                (''status'', JStr ''pending''), (''failureReason'', JNull)]))"

definition placeholder_message :: "string \<Rightarrow> json \<Rightarrow> string \<Rightarrow> string \<Rightarrow> json" where
  "placeholder_message evaluation_id model_id model_a_message_id user_message_id =
     JObj [(''id'', JStr model_a_message_id), (''role'', JStr ''assistant''),
           (''content'', JStr []), (''experimental_attachments'', JArr []),
           (''parentMessageIds'', JArr [JStr user_message_id]),
           (''participantPosition'', JStr ''a''), (''modelId'', model_id),
           (''evaluationSessionId'', JStr evaluation_id),
           (''status'', JStr ''pending''), (''failureReason'', JNull)]"

text \<open>
  The second half of \<^verbatim>\<open>create_lmarena_request_body\<close>, from the insertion of the
  empty user message on: \<open>n\<close> identifiers have been drawn before it.
\<close>

definition build_arena_messages ::
  "string \<Rightarrow> json \<Rightarrow> string list \<Rightarrow> json dict list \<Rightarrow> json list option" where
  "build_arena_messages evaluation_id model_id message_ids processed_messages =
     those (map (\<lambda>(i, msg). arena_message evaluation_id model_id message_ids i msg)
              (enumerate 0 processed_messages))"

definition build_payload ::
  "(nat \<Rightarrow> string) \<Rightarrow> json \<Rightarrow> json \<Rightarrow> json dict list \<Rightarrow> nat \<Rightarrow> py_error + json" where
  "build_payload uuid model_id modality processed n =
     (let evaluation_id = uuid 0;
          processed_messages = insert_empty_user modality processed;
          message_ids = map (\<lambda>k. uuid (n + k)) [0..<length processed_messages];
          n' = n + length processed_messages
      in case build_arena_messages evaluation_id model_id message_ids processed_messages of
           None \<Rightarrow> Inl KeyError
         | Some arena_messages \<Rightarrow>
             let user_message_id = (if message_ids \<noteq> [] then last message_ids else uuid n');
                 model_a_message_id = uuid (if message_ids \<noteq> [] then n' else Suc n')
             in Inr (JObj
                  [(''id'', JStr evaluation_id), (''mode'', JStr ''direct''),
                   (''modelAId'', model_id), (''userMessageId'', JStr user_message_id),
                   (''modelAMessageId'', JStr model_a_message_id),
                   (''messages'',
                      JArr (arena_messages @
                        [placeholder_message evaluation_id model_id model_a_message_id
                           user_message_id])),
                   (''modality'', modality)]))"

definition create_lmarena_request_body ::
  "(nat \<Rightarrow> string) \<Rightarrow> json dict dict \<Rightarrow> json dict \<Rightarrow> py_error + (json \<times> json list)" where
  "create_lmarena_request_body uuid registry openai_req =
     (case dict_get openai_req ''model'' of
        None \<Rightarrow> Inl KeyError
      | Some mname \<Rightarrow>
          (case lookup_key registry mname of
             Inl e \<Rightarrow> Inl e
           | Inr None \<Rightarrow> Inl ValueError
           | Inr (Some model_info) \<Rightarrow>
               let model_id = (case dict_get model_info ''id'' of None \<Rightarrow> mname | Some v \<Rightarrow> v);
                   modality = (case dict_get model_info ''type'' of
                                 None \<Rightarrow> JStr ''chat'' | Some v \<Rightarrow> v)
               in case dict_get openai_req ''messages'' of
                    None \<Rightarrow> Inl KeyError
                  | Some messages \<Rightarrow>
                      (case py_iter messages of
                         Inl e \<Rightarrow> Inl e
                       | Inr msgs \<Rightarrow>
                           (case process_messages uuid 1 msgs of
                              Inl e \<Rightarrow> Inl e
                            | Inr (processed, files_to_upload, n) \<Rightarrow>
                                (case build_payload uuid model_id modality processed n of
                                   Inl e \<Rightarrow> Inl e
                                 | Inr payload \<Rightarrow> Inr (payload, files_to_upload))))))"

subsection \<open>Reading a payload\<close>

definition field :: "string \<Rightarrow> json \<Rightarrow> json" where
  "field k v = (case v of JObj d \<Rightarrow> json_get d k | _ \<Rightarrow> JNull)"

definition payload_messages :: "json \<Rightarrow> json list" where
  "payload_messages payload = (case field ''messages'' payload of JArr ms \<Rightarrow> ms | _ \<Rightarrow> [])"

definition client_role :: "json \<Rightarrow> json option" where
  "client_role msg = (case msg of JObj m \<Rightarrow> dict_get m ''role'' | _ \<Rightarrow> None)"

definition msg_role :: "json dict \<Rightarrow> json option" where
  "msg_role msg = dict_get msg ''role''"

subsection \<open>The shape of a translation\<close>

lemma process_message_role:
  assumes "process_message uuid n msg = Inr (new_msg, files, n')"
  shows "msg_role new_msg = client_role msg"
  using assms
  by (auto simp: process_message_def msg_role_def client_role_def Let_def
           split: json.splits option.splits sum.splits prod.splits if_splits)

lemma process_messages_roles:
  assumes "process_messages uuid n msgs = Inr (processed, files, n')"
  shows "map msg_role processed = map client_role msgs"
  using assms
proof (induction msgs arbitrary: n processed files)
  case Nil
  then show ?case by simp
next
  case (Cons msg msgs)
  from Cons.prems obtain new_msg f1 n1 where
    one: "process_message uuid n msg = Inr (new_msg, f1, n1)"
    by (auto split: sum.splits)
  with Cons.prems obtain rest f2 where
    more: "process_messages uuid n1 msgs = Inr (rest, f2, n')" and
    processed: "processed = new_msg # rest"
    by (auto split: sum.splits)
  from Cons.IH [OF more] process_message_role [OF one] processed show ?case
    by simp
qed

lemma those_Some: "those xs = Some ys \<Longrightarrow> xs = map Some ys"
  by (induction xs arbitrary: ys) (auto split: option.splits)

lemma build_arena_messages_nth:
  assumes "build_arena_messages e model_id ids ms = Some arena"
  shows "length arena = length ms \<and>
         (\<forall>j < length ms. arena_message e model_id ids j (ms ! j) = Some (arena ! j))"
proof -
  from assms have eq: "map (\<lambda>(i, msg). arena_message e model_id ids i msg) (enumerate 0 ms) =
                         map Some arena"
    unfolding build_arena_messages_def by (rule those_Some)
  then have len: "length arena = length ms"
    by (auto dest: arg_cong [where f = length])
  have "arena_message e model_id ids j (ms ! j) = Some (arena ! j)" if "j < length ms" for j
  proof -
    from that len eq have
      "map (\<lambda>(i, msg). arena_message e model_id ids i msg) (enumerate 0 ms) ! j = Some (arena ! j)"
      by simp
    with that show ?thesis by (simp add: nth_enumerate_eq)
  qed
  with len show ?thesis by simp
qed

lemma arena_message_fields:
  assumes "arena_message e model_id ids j msg = Some a"
  shows "field ''role'' a = coerce_role (msg_role msg)"
    and "Some (field ''content'' a) = dict_get msg ''content''"
    and "field ''id'' a = JStr (ids ! j)"
    and "field ''parentMessageIds'' a = JArr (if 0 < j then [JStr (ids ! (j - 1))] else [])"
  using assms
  by (auto simp: arena_message_def field_def json_get_def dict_get_def msg_role_def Let_def
           split: option.splits)


lemma last_user_message_index_eq:
  assumes "i < length ms" and "is_user (ms ! i)"
    and "\<forall>j. i < j \<and> j < length ms \<longrightarrow> \<not> is_user (ms ! j)"
  shows "last_user_message_index ms = Some i"
proof -
  let ?P = "\<lambda>i. is_user (ms ! i)"
  have "[0..<length ms] = [0..<i] @ i # [Suc i..<length ms]"
    using assms(1) upt_add_eq_append [of 0 i "length ms - i"]
    by (simp add: upt_conv_Cons)
  then have "rev [0..<length ms] = rev [Suc i..<length ms] @ i # rev [0..<i]"
    by simp
  moreover have "filter ?P (rev [Suc i..<length ms]) = []"
    using assms(3) by (auto simp: filter_empty_conv)
  ultimately have "filter ?P (rev [0..<length ms]) = i # filter ?P (rev [0..<i])"
    using assms(2) by simp
  then show ?thesis
    by (simp add: last_user_message_index_def)
qed

lemma last_user_message_index_None:
  assumes "\<forall>j < length ms. \<not> is_user (ms ! j)"
  shows "last_user_message_index ms = None"
proof -
  have "filter (\<lambda>i. is_user (ms ! i)) (rev [0..<length ms]) = []"
    using assms by (auto simp: filter_empty_conv)
  then show ?thesis by (simp add: last_user_message_index_def)
qed

text \<open>What a successful translation is made of.\<close>

lemma translation_parts:
  assumes "create_lmarena_request_body uuid registry openai_req = Inr (payload, files)"
    and "dict_get openai_req ''messages'' = Some (JArr msgs)"
  obtains mname model_info modality processed n where
    "dict_get openai_req ''model'' = Some mname"
    and "lookup_key registry mname = Inr (Some model_info)"
    and "process_messages uuid 1 msgs = Inr (processed, files, n)"
    and "build_payload uuid
           (case dict_get model_info ''id'' of None \<Rightarrow> mname | Some v \<Rightarrow> v)
           modality processed n = Inr payload"
  using assms
  by (auto simp: create_lmarena_request_body_def Let_def
           split: option.splits sum.splits prod.splits)

lemma build_payload_parts:
  assumes "build_payload uuid model_id modality processed n = Inr payload"
  defines "pms \<equiv> insert_empty_user modality processed"
  defines "ids \<equiv> map (\<lambda>k. uuid (n + k)) [0..<length pms]"
  obtains arena where
    "build_arena_messages (uuid 0) model_id ids pms = Some arena"
    and "payload_messages payload =
           arena @ [placeholder_message (uuid 0) model_id
                      (uuid (if ids \<noteq> [] then n + length pms else Suc (n + length pms)))
                      (if ids \<noteq> [] then last ids else uuid (n + length pms))]"
    and "field ''modality'' payload = modality"
    and "field ''modelAId'' payload = model_id"
    and "field ''userMessageId'' payload =
           JStr (if ids \<noteq> [] then last ids else uuid (n + length pms))"
proof -
  from assms(1) obtain arena where
    a: "build_arena_messages (uuid 0) model_id ids pms = Some arena"
    unfolding build_payload_def Let_def pms_def ids_def
    by (auto split: option.splits)
  with assms(1) have p: "payload = JObj
      [(''id'', JStr (uuid 0)), (''mode'', JStr ''direct''), (''modelAId'', model_id),
       (''userMessageId'', JStr (if ids \<noteq> [] then last ids else uuid (n + length pms))),
       (''modelAMessageId'',
          JStr (uuid (if ids \<noteq> [] then n + length pms else Suc (n + length pms)))),
       (''messages'',
          JArr (arena @ [placeholder_message (uuid 0) model_id
                      (uuid (if ids \<noteq> [] then n + length pms else Suc (n + length pms)))
                      (if ids \<noteq> [] then last ids else uuid (n + length pms))])),
       (''modality'', modality)]"
    unfolding build_payload_def Let_def pms_def ids_def
    by (auto split: option.splits)
  show ?thesis
    by (rule that [OF a]) (simp_all add: p payload_messages_def field_def json_get_def dict_get_def)
qed

lemma arena_roles:
  assumes "build_arena_messages e model_id ids ms = Some arena"
  shows "map (field ''role'') arena = map (coerce_role \<circ> msg_role) ms"
proof (rule nth_equalityI)
  from build_arena_messages_nth [OF assms]
  show "length (map (field ''role'') arena) = length (map (coerce_role \<circ> msg_role) ms)"
    by simp
next
  fix j
  assume "j < length (map (field ''role'') arena)"
  with build_arena_messages_nth [OF assms]
  have j: "j < length ms" "j < length arena"
    and "arena_message e model_id ids j (ms ! j) = Some (arena ! j)"
    by simp_all
  from arena_message_fields(1) [OF this(3)] j
  show "map (field ''role'') arena ! j = map (coerce_role \<circ> msg_role) ms ! j"
    by simp
qed

lemma placeholder_fields [simp]:
  "field ''role'' (placeholder_message e model_id a u) = JStr ''assistant''"
  "field ''content'' (placeholder_message e model_id a u) = JStr []"
  "field ''modelId'' (placeholder_message e model_id a u) = model_id"
  "field ''parentMessageIds'' (placeholder_message e model_id a u) = JArr [JStr u]"
  "field ''id'' (placeholder_message e model_id a u) = JStr a"
  by (simp_all add: placeholder_message_def field_def json_get_def dict_get_def)


lemma msg_role_empty_user [simp]: "msg_role empty_user_message = Some (JStr ''user'')"
  by (simp add: msg_role_def empty_user_message_def dict_get_def)

lemma coerce_role_user [simp]: "coerce_role (Some (JStr ''user'')) = JStr ''user''"
  by (simp add: coerce_role_def)

lemma is_user_msg_role: "is_user m \<longleftrightarrow> msg_role m = Some (JStr ''user'')"
  by (simp add: is_user_def msg_role_def)

lemma insert_empty_user_chat:
  assumes "i < length processed" and "msg_role (processed ! i) = Some (JStr ''user'')"
    and "\<forall>j. i < j \<and> j < length processed \<longrightarrow> msg_role (processed ! j) \<noteq> Some (JStr ''user'')"
  shows "insert_empty_user (JStr ''chat'') processed =
           take (Suc i) processed @ [empty_user_message] @ drop (Suc i) processed"
proof -
  have "last_user_message_index processed = Some i"
    using assms by (intro last_user_message_index_eq) (simp_all add: is_user_msg_role)
  then show ?thesis by (simp add: insert_empty_user_def)
qed

lemma insert_empty_user_other:
  "modality \<noteq> JStr ''chat'' \<Longrightarrow> insert_empty_user modality processed = processed"
  by (simp add: insert_empty_user_def split: option.splits)

text \<open>
  C6. In a successful translation of a list of messages: when the modality is
  \<^verbatim>\<open>chat\<close> and message \<open>i\<close> is the last one with role \<^verbatim>\<open>user\<close>, the messages sent to
  the agent are the first \<open>i + 1\<close> messages, then a message with role \<^verbatim>\<open>user\<close> and
  content \<^verbatim>\<open>" "\<close>, then the remaining messages, then the assistant placeholder. For any
  other modality they are the client's messages and the placeholder, nothing else.
\<close>

theorem empty_user_message_inserted:
  assumes "create_lmarena_request_body uuid registry openai_req = Inr (payload, files)"
    and "dict_get openai_req ''messages'' = Some (JArr msgs)"
  shows "(field ''modality'' payload = JStr ''chat'' \<and> i < length msgs \<and>
          client_role (msgs ! i) = Some (JStr ''user'') \<and>
          (\<forall>j. i < j \<and> j < length msgs \<longrightarrow> client_role (msgs ! j) \<noteq> Some (JStr ''user'')) \<longrightarrow>
            map (field ''role'') (payload_messages payload) =
              map (coerce_role \<circ> client_role) (take (Suc i) msgs) @ [JStr ''user''] @
              map (coerce_role \<circ> client_role) (drop (Suc i) msgs) @ [JStr ''assistant''] \<and>
            field ''content'' (payload_messages payload ! Suc i) = JStr '' '') \<and>
         (field ''modality'' payload \<noteq> JStr ''chat'' \<longrightarrow>
            map (field ''role'') (payload_messages payload) =
              map (coerce_role \<circ> client_role) msgs @ [JStr ''assistant''])"
proof -
  from assms obtain mname model_info modality processed n where
    pm: "process_messages uuid 1 msgs = Inr (processed, files, n)" and
    bp: "build_payload uuid (case dict_get model_info ''id'' of None \<Rightarrow> mname | Some v \<Rightarrow> v)
           modality processed n = Inr payload"
    by (rule translation_parts)
  let ?model_id = "case dict_get model_info ''id'' of None \<Rightarrow> mname | Some v \<Rightarrow> v"
  let ?pms = "insert_empty_user modality processed"
  let ?ids = "map (\<lambda>k. uuid (n + k)) [0..<length ?pms]"
  from bp obtain arena where
    arena: "build_arena_messages (uuid 0) ?model_id ?ids ?pms = Some arena" and
    msgs: "payload_messages payload =
           arena @ [placeholder_message (uuid 0) ?model_id
                      (uuid (if ?ids \<noteq> [] then n + length ?pms else Suc (n + length ?pms)))
                      (if ?ids \<noteq> [] then last ?ids else uuid (n + length ?pms))]" and
    modality: "field ''modality'' payload = modality"
    by (rule build_payload_parts)
  note roles = process_messages_roles [OF pm]
  then have len: "length processed = length msgs"
    by (auto dest: arg_cong [where f = length])
  have nth_role: "msg_role (processed ! j) = client_role (msgs ! j)" if "j < length msgs" for j
    using that roles len by (metis nth_map)
  have all_roles: "map (field ''role'') (payload_messages payload) =
                     map (coerce_role \<circ> msg_role) ?pms @ [JStr ''assistant'']"
    by (simp add: msgs arena_roles [OF arena])
  have chat: "map (field ''role'') (payload_messages payload) =
                map (coerce_role \<circ> client_role) (take (Suc i) msgs) @ [JStr ''user''] @
                map (coerce_role \<circ> client_role) (drop (Suc i) msgs) @ [JStr ''assistant''] \<and>
              field ''content'' (payload_messages payload ! Suc i) = JStr '' ''"
    if c: "field ''modality'' payload = JStr ''chat''" and i: "i < length msgs"
      and u: "client_role (msgs ! i) = Some (JStr ''user'')"
      and l: "\<forall>j. i < j \<and> j < length msgs \<longrightarrow> client_role (msgs ! j) \<noteq> Some (JStr ''user'')"
  proof -
    have ins: "?pms = take (Suc i) processed @ [empty_user_message] @ drop (Suc i) processed"
      using c i u l modality len nth_role by (simp add: insert_empty_user_chat)
    have t: "map (coerce_role \<circ> msg_role) (take (Suc i) processed) =
               map (coerce_role \<circ> client_role) (take (Suc i) msgs)"
      and d: "map (coerce_role \<circ> msg_role) (drop (Suc i) processed) =
               map (coerce_role \<circ> client_role) (drop (Suc i) msgs)"
      using roles by (simp_all add: take_map [symmetric] drop_map [symmetric] map_map [symmetric]
                         del: map_map)
    have r: "map (field ''role'') (payload_messages payload) =
                map (coerce_role \<circ> client_role) (take (Suc i) msgs) @ [JStr ''user''] @
                map (coerce_role \<circ> client_role) (drop (Suc i) msgs) @ [JStr ''assistant'']"
      unfolding all_roles ins using t d by simp
    have at: "?pms ! Suc i = empty_user_message" and lt: "Suc i < length ?pms"
      unfolding ins using i len by (simp_all add: nth_append)
    from build_arena_messages_nth [OF arena] lt
    have "arena_message (uuid 0) ?model_id ?ids (Suc i) (?pms ! Suc i) = Some (arena ! Suc i)"
      and "Suc i < length arena"
      by simp_all
    with arena_message_fields(2) [OF this(1)] at
    have "field ''content'' (arena ! Suc i) = JStr '' ''" "Suc i < length arena"
      by (simp_all add: empty_user_message_def dict_get_def)
    with r msgs show ?thesis by (simp add: nth_append)
  qed
  have other: "map (field ''role'') (payload_messages payload) =
                 map (coerce_role \<circ> client_role) msgs @ [JStr ''assistant'']"
    if "field ''modality'' payload \<noteq> JStr ''chat''"
  proof -
    from that modality have "?pms = processed"
      by (simp add: insert_empty_user_other)
    moreover have "map (coerce_role \<circ> msg_role) processed = map (coerce_role \<circ> client_role) msgs"
      using roles by (simp add: map_map [symmetric] del: map_map)
    ultimately show ?thesis by (simp add: all_roles)
  qed
  from chat other show ?thesis by blast
qed






subsection \<open>Sample translations\<close>

definition sample_uuid :: "nat \<Rightarrow> string" where
  "sample_uuid n = ''u'' @ str_nat n"

definition sample_registry :: "json dict dict" where
  "sample_registry =
     [(''M'', [(''id'', JStr ''m-1''), (''type'', JStr ''chat'')]),
      (''I'', [(''id'', JStr ''i-1''), (''type'', JStr ''image'')])]"

definition sample_messages :: "json list" where
  "sample_messages =
     [JObj [(''role'', JStr ''user''), (''content'', JStr ''look data:image/png;base64,AAAA'')],
      JObj [(''role'', JStr ''assistant''), (''content'', JStr ''ok'')]]"

definition sample_chat :: "json dict" where
  "sample_chat = [(''model'', JStr ''M''), (''messages'', JArr sample_messages)]"

definition sample_image :: "json dict" where
  "sample_image =
     [(''model'', JStr ''I''),
      (''messages'', JArr [JObj [(''role'', JStr ''user''), (''content'', JStr ''a cat'')]])]"

lemma str_nat_digit: "n < 10 \<Longrightarrow> str_nat n = [''0123456789'' ! n]"
  by (simp add: str_nat.simps [of n])

lemmas translator_simps =
  create_lmarena_request_body_def build_payload_def build_arena_messages_def
  process_message_def embedded_attachments_def attachment_def repr_str_list_def
  single_quoted_def match_embedded_def match_data_image_def re_match_image_url_def
  is_word_char_def is_base64_char_def startswith_def py_strip_def is_space_def
  last_user_message_index_def is_user_def insert_empty_user_def empty_user_message_def
  arena_message_def coerce_role_def placeholder_message_def dict_get_def dict_set_def
  sample_uuid_def sample_registry_def sample_chat_def sample_image_def sample_messages_def
  str_nat_digit Let_def

definition arena_entry :: "string \<Rightarrow> string \<Rightarrow> json \<Rightarrow> string list \<Rightarrow> json \<Rightarrow> json" where
  "arena_entry mid role content parents model =
     JObj [(''id'', JStr mid), (''role'', JStr role), (''content'', content),
           (''experimental_attachments'', JArr []),
           (''parentMessageIds'', JArr (map JStr parents)),
           (''participantPosition'', JStr ''a''), (''modelId'', model),
           (''evaluationSessionId'', JStr ''u0''),
           (''status'', JStr ''pending''), (''failureReason'', JNull)]"

lemma sample_chat_translation:
  "create_lmarena_request_body sample_uuid sample_registry sample_chat =
     Inr (JObj [(''id'', JStr ''u0''), (''mode'', JStr ''direct''), (''modelAId'', JStr ''m-1''),
                (''userMessageId'', JStr ''u4''), (''modelAMessageId'', JStr ''u5''),
                (''messages'', JArr
                   [arena_entry ''u2'' ''user'' (JStr ''look'') [] JNull,
                    arena_entry ''u3'' ''user'' (JStr '' '') [''u2''] JNull,
                    arena_entry ''u4'' ''assistant'' (JStr ''ok'') [''u3''] (JStr ''m-1''),
                    arena_entry ''u5'' ''assistant'' (JStr []) [''u4''] (JStr ''m-1'')]),
                (''modality'', JStr ''chat'')],
          [JObj [(''fileName'',
                    JStr (''upload-u1.['' @ single_quoted ''image'' @ '', '' @
                          single_quoted ''png'' @ '']'')),
                 (''contentType'', JStr ''image/png''), (''data'', JStr ''AAAA'')]])"
  by (simp add: translator_simps arena_entry_def)

lemma sample_image_translation:
  "create_lmarena_request_body sample_uuid sample_registry sample_image =
     Inr (JObj [(''id'', JStr ''u0''), (''mode'', JStr ''direct''), (''modelAId'', JStr ''i-1''),
                (''userMessageId'', JStr ''u1''), (''modelAMessageId'', JStr ''u2''),
                (''messages'', JArr
                   [arena_entry ''u1'' ''user'' (JStr ''a cat'') [] JNull,
                    arena_entry ''u2'' ''assistant'' (JStr []) [''u1''] (JStr ''i-1'')]),
                (''modality'', JStr ''image'')],
          [])"
  by (simp add: translator_simps arena_entry_def)


lemmas payload_simps =
  payload_messages_def field_def json_get_def dict_get_def arena_entry_def client_role_def
  coerce_role_def sample_messages_def sample_chat_def sample_image_def

text \<open>
  C6 on the samples: the chat request gets the empty user message after its user
  message, the image request gets none.
\<close>

theorem empty_user_message_inserted_witness:
  "map (field ''role'')
     (payload_messages
        (fst (projr (create_lmarena_request_body sample_uuid sample_registry sample_chat)))) =
     [JStr ''user'', JStr ''user'', JStr ''assistant'', JStr ''assistant''] \<and>
   field ''content''
     (payload_messages
        (fst (projr (create_lmarena_request_body sample_uuid sample_registry sample_chat))) ! 1) =
     JStr '' '' \<and>
   map (field ''role'')
     (payload_messages
        (fst (projr (create_lmarena_request_body sample_uuid sample_registry sample_image)))) =
     [JStr ''user'', JStr ''assistant'']"
proof -
  have chat: "dict_get sample_chat ''messages'' = Some (JArr sample_messages)"
    by (simp add: sample_chat_def dict_get_def)
  have image: "dict_get sample_image ''messages'' =
      Some (JArr [JObj [(''role'', JStr ''user''), (''content'', JStr ''a cat'')]])"
    by (simp add: sample_image_def dict_get_def)
  from empty_user_message_inserted [OF sample_chat_translation chat, of 0]
    empty_user_message_inserted [OF sample_image_translation image, of 0]
  show ?thesis
    unfolding sample_chat_translation sample_image_translation sum.sel fst_conv
    by (simp add: payload_simps)
qed



text \<open>
  C8 at a message whose text embeds \<^verbatim>\<open>data:image/png;base64,AAAA\<close>. The url is cut
  out of the text and one attachment is made, with the mime type and the base64 body;
  the body is under the key \<^verbatim>\<open>data\<close>. The file name ends in the text of the list
  \<^verbatim>\<open>['image', 'png']\<close>, not in \<^verbatim>\<open>png\<close>: \<^verbatim>\<open>file_ext\<close> is the whole result of
  \<^verbatim>\<open>mime_type.split('/')\<close>.
\<close>

theorem attachment_file_name_evaluated:
  "snd (projr (create_lmarena_request_body sample_uuid sample_registry sample_chat)) =
     [JObj [(''fileName'',
               JStr (''upload-u1.['' @ single_quoted ''image'' @ '', '' @
                     single_quoted ''png'' @ '']'')),
            (''contentType'', JStr ''image/png''), (''data'', JStr ''AAAA'')]] \<and>
   ''upload-u1.['' @ single_quoted ''image'' @ '', '' @ single_quoted ''png'' @ '']'' \<noteq>
     ''upload-u1.png'' \<and>
   field ''content''
     (hd (payload_messages
        (fst (projr (create_lmarena_request_body sample_uuid sample_registry sample_chat))))) =
     JStr ''look''"
  unfolding sample_chat_translation sum.sel fst_conv snd_conv
  by (simp add: payload_simps single_quoted_def)

end
